theory Spec2Isabelle
  imports Complex_Main "HOL-Library.Sublist"
begin

section \<open>JavaScript values that survive persistence\<close>

text \<open>
  \<^verbatim>\<open>SoilStorage\<close> keeps everything as JSON text in \<^verbatim>\<open>localStorage\<close>, so the values
  it handles are JSON values. A number is an exact real (the rounding of IEEE doubles
  is not modelled, and neither are NaN and the infinities, which JSON cannot hold); a
  string is the list of the bytes of its text; an object is its list of own properties in
  insertion order, each key once. A property that is missing reads as
  \<^verbatim>\<open>undefined\<close>, which is \<open>None\<close> here.
\<close>

datatype json =
    JNull
  | JBool bool
  | JNum real
  | JStr string
  | JArr "json list"
  | JObj "(string \<times> json) list"

type_synonym obj = "(string \<times> json) list"

text \<open>
  What the source throws: \<^verbatim>\<open>new Error(message)\<close>, the \<^verbatim>\<open>TypeError\<close> of the
  runtime (a property read on \<^verbatim>\<open>null\<close>, a call of something that is no function),
  and the \<^verbatim>\<open>QuotaExceededError\<close> of \<^verbatim>\<open>localStorage.setItem\<close>.
\<close>

datatype error = Error string | TypeError | QuotaExceededError

text \<open>\<^verbatim>\<open>!v\<close>: undefined, null, false, 0 and the empty string are falsy.\<close>

fun falsy :: "json option \<Rightarrow> bool" where
  "falsy None = True"
| "falsy (Some JNull) = True"
| "falsy (Some (JBool b)) = (\<not> b)"
| "falsy (Some (JNum x)) = (x = 0)"
| "falsy (Some (JStr s)) = (s = [])"
| "falsy (Some (JArr xs)) = False"
| "falsy (Some (JObj ps)) = False"

text \<open>
  \<^verbatim>\<open>v.k\<close> for the keys the source reads (\<^verbatim>\<open>id\<close>, \<^verbatim>\<open>story\<close>, \<^verbatim>\<open>timestamp\<close>,
  \<^verbatim>\<open>location\<close>, \<^verbatim>\<open>lat\<close>, \<^verbatim>\<open>lon\<close>): a TypeError on \<^verbatim>\<open>null\<close>, the own property of
  an object, and undefined on a number, boolean, string or array, whose prototypes
  have none of these keys.
\<close>

fun get_prop :: "json \<Rightarrow> string \<Rightarrow> error + json option" where
  "get_prop JNull k = Inl TypeError"
| "get_prop (JObj ps) k = Inr (map_of ps k)"
| "get_prop v k = Inr None"

text \<open>
  \<^verbatim>\<open>o[k] = v\<close> on a property list: an existing key keeps its position, a new key
  goes last.
\<close>

fun set_prop :: "obj \<Rightarrow> string \<Rightarrow> json \<Rightarrow> obj" where
  "set_prop [] k v = [(k, v)]"
| "set_prop ((k', v') # ps) k v =
     (if k' = k then (k, v) # ps else (k', v') # set_prop ps k v)"

text \<open>Decimal text of a natural number, as string concatenation renders it.\<close>

definition digit_char :: "nat \<Rightarrow> char" where
  "digit_char d = ''0123456789'' ! d"

function decimal :: "nat \<Rightarrow> string" where
  "decimal n = (if n < 10 then [digit_char n] else decimal (n div 10) @ [digit_char (n mod 10)])"
  by pat_completeness auto
termination
  by (relation "measure (\<lambda>n. n)") auto

declare decimal.simps [simp del]

text \<open>
  The own enumerable properties that an object spread \<^verbatim>\<open>{...v}\<close> copies: those of an
  object, the indices of an array or of a string, nothing for null, a boolean or a
  number.
\<close>

fun own_props :: "json \<Rightarrow> obj" where
  "own_props (JObj ps) = ps"
| "own_props (JArr xs) = zip (map decimal [0..<length xs]) xs"
| "own_props (JStr s) = zip (map decimal [0..<length s]) (map (\<lambda>c. JStr [c]) s)"
| "own_props v = []"

text \<open>
  \<^verbatim>\<open>{ ...a, ...b }\<close>: a new object with the properties of \<open>a\<close>, then those of \<open>b\<close>
  assigned over them in their order.
\<close>

definition assign_all :: "obj \<Rightarrow> obj \<Rightarrow> obj" where
  "assign_all target src = fold (\<lambda>(k, v) acc. set_prop acc k v) src target"

definition spread2 :: "json \<Rightarrow> json \<Rightarrow> obj" where
  "spread2 a b = assign_all (own_props a) (own_props b)"

text \<open>
  \<^verbatim>\<open>a === b\<close> where \<open>a\<close> was read from a freshly parsed value and \<open>b\<close> is the caller's
  argument: primitives compare by value, an array or object is never identical to
  another one, undefined equals no JSON value.
\<close>

fun strict_equals :: "json option \<Rightarrow> json \<Rightarrow> bool" where
  "strict_equals None b = False"
| "strict_equals (Some JNull) b = (b = JNull)"
| "strict_equals (Some (JBool x)) b = (b = JBool x)"
| "strict_equals (Some (JNum x)) b = (b = JNum x)"
| "strict_equals (Some (JStr x)) b = (b = JStr x)"
| "strict_equals (Some (JArr xs)) b = False"
| "strict_equals (Some (JObj ps)) b = False"

section \<open>The storage medium\<close>

text \<open>
  \<^verbatim>\<open>localStorage\<close> maps keys to texts. A text is kept as the JSON value it encodes
  (\<open>Text\<close>, what \<^verbatim>\<open>JSON.stringify\<close> wrote and \<^verbatim>\<open>JSON.parse\<close> reads back), or as
  \<open>Raw\<close> text that \<^verbatim>\<open>JSON.parse\<close> rejects (the empty string and the probe's sentinel
  among them). The medium decides which contents it holds: \<open>accepts\<close> is false for
  contents over the quota, and false everywhere when storage is disabled.
\<close>

datatype item = Text json | Raw string

record local_storage =
  items :: "string \<Rightarrow> item option"
  accepts :: "(string \<Rightarrow> item option) \<Rightarrow> bool"

definition setItem :: "local_storage \<Rightarrow> string \<Rightarrow> item \<Rightarrow> error + local_storage" where
  "setItem s k it =
     (let m = (items s)(k \<mapsto> it)
      in if accepts s m then Inr (s\<lparr>items := m\<rparr>) else Inl QuotaExceededError)"

definition removeItem :: "local_storage \<Rightarrow> string \<Rightarrow> local_storage" where
  "removeItem s k = s\<lparr>items := (items s)(k := None)\<rparr>"

definition getItem :: "local_storage \<Rightarrow> string \<Rightarrow> item option" where
  "getItem s k = items s k"

section \<open>SoilStorage\<close>

record soil_storage =
  storageKey :: string
  analysesKey :: string
  settingsKey :: string
  maxStorageSize :: nat

definition new_SoilStorage :: soil_storage where
  "new_SoilStorage =
     \<lparr>storageKey = ''soilstory_data'', analysesKey = ''soilstory_analyses'',
      settingsKey = ''soilstory_settings'', maxStorageSize = 50\<rparr>"

text \<open>The same store with another capacity.\<close>

definition with_capacity :: "nat \<Rightarrow> soil_storage" where
  "with_capacity c = new_SoilStorage\<lparr>maxStorageSize := c\<rparr>"

text \<open>
  What the clock and the random generator give to one call: \<^verbatim>\<open>Date.now()\<close>,
  \<^verbatim>\<open>new Date().toISOString()\<close> and the text of \<^verbatim>\<open>Math.random().toString(36)\<close>.
\<close>

record clock =
  date_now :: nat
  iso_now :: string
  random36 :: string

text \<open>
  Every operation returns its outcome together with the storage it leaves, also when
  it throws.
\<close>

definition isStorageAvailable :: "local_storage \<Rightarrow> bool \<times> local_storage" where
  "isStorageAvailable s =
     (case setItem s ''__storage_test__'' (Raw ''__storage_test__'') of
        Inl e \<Rightarrow> (False, s)
      | Inr s1 \<Rightarrow> (True, removeItem s1 ''__storage_test__''))"

text \<open>\<^verbatim>\<open>'analysis_' + Date.now() + '_' + Math.random().toString(36).substr(2, 9)\<close>\<close>

definition generateId :: "clock \<Rightarrow> string" where
  "generateId c = ''analysis_'' @ decimal (date_now c) @ ''_'' @ take 9 (drop 2 (random36 c))"

definition getAnalyses :: "soil_storage \<Rightarrow> local_storage \<Rightarrow> json \<times> local_storage" where
  "getAnalyses self s =
     (case isStorageAvailable s of
        (False, s1) \<Rightarrow> (JArr [], s1)
      | (True, s1) \<Rightarrow>
          (case getItem s1 (analysesKey self) of
             None \<Rightarrow> (JArr [], s1)
           | Some (Raw t) \<Rightarrow> (JArr [], s1)
           | Some (Text v) \<Rightarrow> (v, s1)))"

text \<open>
  \<^verbatim>\<open>updateStorageInfo\<close> sums the sizes of the stored texts and logs a warning; all it
  does to the storage is the probe of \<^verbatim>\<open>getStorageInfo\<close>.
\<close>

definition updateStorageInfo :: "local_storage \<Rightarrow> local_storage" where
  "updateStorageInfo s = snd (isStorageAvailable s)"

text \<open>The record as \<^verbatim>\<open>saveAnalysis\<close> completes it before storing it.\<close>

definition with_id :: "clock \<Rightarrow> obj \<Rightarrow> obj" where
  "with_id c analysis =
     (if falsy (map_of analysis ''id'') then set_prop analysis ''id'' (JStr (generateId c))
      else analysis)"

definition with_timestamp :: "clock \<Rightarrow> obj \<Rightarrow> obj" where
  "with_timestamp c analysis =
     (if falsy (map_of analysis ''timestamp'')
      then set_prop analysis ''timestamp'' (JStr (iso_now c)) else analysis)"

definition stamped :: "clock \<Rightarrow> obj \<Rightarrow> obj" where
  "stamped c analysis = with_timestamp c (with_id c analysis)"

text \<open>
  \<^verbatim>\<open>saveAnalysis\<close> returns \<^verbatim>\<open>analysis.id\<close>. Whatever is thrown after the
  availability check (\<^verbatim>\<open>unshift\<close> on a stored value that is no array, the quota) is
  caught and thrown again as \<^verbatim>\<open>Failed to save analysis\<close>.
\<close>

definition saveAnalysis ::
  "soil_storage \<Rightarrow> clock \<Rightarrow> local_storage \<Rightarrow> obj \<Rightarrow> (error + json option) \<times> local_storage" where
  "saveAnalysis self c s analysis =
     (case isStorageAvailable s of
        (False, s1) \<Rightarrow> (Inl (Error ''LocalStorage is not available''), s1)
      | (True, s1) \<Rightarrow>
          (let a = stamped c analysis in
           case getAnalyses self s1 of
             (JArr xs, s2) \<Rightarrow>
               (let ys = JObj a # xs;
                    zs = (if length ys > maxStorageSize self then take (maxStorageSize self) ys else ys)
                in case setItem s2 (analysesKey self) (Text (JArr zs)) of
                     Inl e \<Rightarrow> (Inl (Error ''Failed to save analysis''), s2)
                   | Inr s3 \<Rightarrow> (Inr (map_of a ''id''), updateStorageInfo s3))
           | (v, s2) \<Rightarrow> (Inl (Error ''Failed to save analysis''), s2)))"

text \<open>A run of saves, each with its own clock reading, stopping at the first throw.\<close>

fun save_all ::
  "soil_storage \<Rightarrow> local_storage \<Rightarrow> (clock \<times> obj) list \<Rightarrow> (error + unit) \<times> local_storage" where
  "save_all self s [] = (Inr (), s)"
| "save_all self s ((c, a) # rest) =
     (case saveAnalysis self c s a of
        (Inl e, s1) \<Rightarrow> (Inl e, s1)
      | (Inr i, s1) \<Rightarrow> save_all self s1 rest)"

subsection \<open>Array methods whose callback may throw\<close>

fun find_js :: "('a \<Rightarrow> error + bool) \<Rightarrow> 'a list \<Rightarrow> error + 'a option" where
  "find_js p [] = Inr None"
| "find_js p (x # xs) =
     (case p x of Inl e \<Rightarrow> Inl e | Inr True \<Rightarrow> Inr (Some x) | Inr False \<Rightarrow> find_js p xs)"

text \<open>\<^verbatim>\<open>findIndex\<close>, with \<open>None\<close> for the source's \<^verbatim>\<open>-1\<close>.\<close>

fun findIndex_js :: "('a \<Rightarrow> error + bool) \<Rightarrow> 'a list \<Rightarrow> error + nat option" where
  "findIndex_js p [] = Inr None"
| "findIndex_js p (x # xs) =
     (case p x of
        Inl e \<Rightarrow> Inl e
      | Inr True \<Rightarrow> Inr (Some 0)
      | Inr False \<Rightarrow>
          (case findIndex_js p xs of
             Inl e \<Rightarrow> Inl e
           | Inr None \<Rightarrow> Inr None
           | Inr (Some j) \<Rightarrow> Inr (Some (Suc j))))"

fun filter_js :: "('a \<Rightarrow> error + bool) \<Rightarrow> 'a list \<Rightarrow> error + 'a list" where
  "filter_js p [] = Inr []"
| "filter_js p (x # xs) =
     (case p x of
        Inl e \<Rightarrow> Inl e
      | Inr b \<Rightarrow>
          (case filter_js p xs of
             Inl e \<Rightarrow> Inl e
           | Inr ys \<Rightarrow> Inr (if b then x # ys else ys)))"

text \<open>\<^verbatim>\<open>analysis.id === id\<close> and \<^verbatim>\<open>analysis.id !== id\<close>\<close>

definition id_is :: "json \<Rightarrow> json \<Rightarrow> error + bool" where
  "id_is i analysis =
     (case get_prop analysis ''id'' of Inl e \<Rightarrow> Inl e | Inr v \<Rightarrow> Inr (strict_equals v i))"

definition id_is_not :: "json \<Rightarrow> json \<Rightarrow> error + bool" where
  "id_is_not i analysis =
     (case get_prop analysis ''id'' of Inl e \<Rightarrow> Inl e | Inr v \<Rightarrow> Inr (\<not> strict_equals v i))"

subsection \<open>Reading, updating, deleting, clearing\<close>

text \<open>
  \<^verbatim>\<open>getAnalysis\<close> has no handler: a stored value without \<^verbatim>\<open>find\<close>, or a
  \<^verbatim>\<open>null\<close> element, throws to the caller. \<open>Inr None\<close> is \<^verbatim>\<open>undefined\<close>.
\<close>

definition getAnalysis ::
  "soil_storage \<Rightarrow> local_storage \<Rightarrow> json \<Rightarrow> (error + json option) \<times> local_storage" where
  "getAnalysis self s i =
     (case getAnalyses self s of
        (JArr xs, s1) \<Rightarrow> (find_js (id_is i) xs, s1)
      | (v, s1) \<Rightarrow> (Inl TypeError, s1))"

text \<open>
  In \<^verbatim>\<open>updateAnalysis\<close> the \<^verbatim>\<open>Analysis not found\<close> error is thrown inside the
  \<^verbatim>\<open>try\<close> block, so the caller sees \<^verbatim>\<open>Failed to update analysis\<close> for it as for
  every other throw.
\<close>

definition updateAnalysis ::
  "soil_storage \<Rightarrow> local_storage \<Rightarrow> json \<Rightarrow> obj \<Rightarrow> (error + bool) \<times> local_storage" where
  "updateAnalysis self s i updates =
     (case isStorageAvailable s of
        (False, s1) \<Rightarrow> (Inl (Error ''LocalStorage is not available''), s1)
      | (True, s1) \<Rightarrow>
          (case getAnalyses self s1 of
             (JArr xs, s2) \<Rightarrow>
               (case findIndex_js (id_is i) xs of
                  Inr (Some index) \<Rightarrow>
                    (case setItem s2 (analysesKey self)
                            (Text (JArr (xs[index := JObj (spread2 (xs ! index) (JObj updates))]))) of
                       Inl e \<Rightarrow> (Inl (Error ''Failed to update analysis''), s2)
                     | Inr s3 \<Rightarrow> (Inr True, s3))
                | Inr None \<Rightarrow> (Inl (Error ''Failed to update analysis''), s2)
                | Inl e \<Rightarrow> (Inl (Error ''Failed to update analysis''), s2))
           | (v, s2) \<Rightarrow> (Inl (Error ''Failed to update analysis''), s2)))"

definition deleteAnalysis ::
  "soil_storage \<Rightarrow> local_storage \<Rightarrow> json \<Rightarrow> (error + bool) \<times> local_storage" where
  "deleteAnalysis self s i =
     (case isStorageAvailable s of
        (False, s1) \<Rightarrow> (Inl (Error ''LocalStorage is not available''), s1)
      | (True, s1) \<Rightarrow>
          (case getAnalyses self s1 of
             (JArr xs, s2) \<Rightarrow>
               (case filter_js (id_is_not i) xs of
                  Inr filtered \<Rightarrow>
                    (case setItem s2 (analysesKey self) (Text (JArr filtered)) of
                       Inl e \<Rightarrow> (Inl (Error ''Failed to delete analysis''), s2)
                     | Inr s3 \<Rightarrow> (Inr True, s3))
                | Inl e \<Rightarrow> (Inl (Error ''Failed to delete analysis''), s2))
           | (v, s2) \<Rightarrow> (Inl (Error ''Failed to delete analysis''), s2)))"

definition clearAnalyses :: "soil_storage \<Rightarrow> local_storage \<Rightarrow> (error + bool) \<times> local_storage" where
  "clearAnalyses self s =
     (case isStorageAvailable s of
        (False, s1) \<Rightarrow> (Inl (Error ''LocalStorage is not available''), s1)
      | (True, s1) \<Rightarrow> (Inr True, removeItem s1 (analysesKey self)))"

subsection \<open>Search\<close>

text \<open>
  The text functions of the runtime: \<^verbatim>\<open>String.prototype.toLowerCase\<close>,
  \<^verbatim>\<open>String.prototype.trim\<close> and \<^verbatim>\<open>Number.prototype.toString\<close>. Which characters
  have a lower case and which ones are white space is decided by the runtime (Unicode
  case mapping, the Unicode spaces and line ends), so the three functions are taken
  as they are given.
\<close>

record js_strings =
  toLowerCase :: "string \<Rightarrow> string"
  trim :: "string \<Rightarrow> string"
  numberText :: "real \<Rightarrow> string"

text \<open>\<^verbatim>\<open>s.includes(t)\<close>: \<open>t\<close> starts at some position of \<open>s\<close>.\<close>

fun includes_js :: "string \<Rightarrow> string \<Rightarrow> bool" where
  "includes_js [] t = (t = [])"
| "includes_js (c # cs) t = (prefix t (c # cs) \<or> includes_js cs t)"

text \<open>
  \<^verbatim>\<open>v.toString()\<close> takes the text of a number from the runtime (the parameter
  \<open>numText\<close>). An array joins its
  elements with commas, \<^verbatim>\<open>null\<close> elements as empty text; an object that does not
  shadow \<^verbatim>\<open>toString\<close> gives \<^verbatim>\<open>[object Object]\<close>.
\<close>

fun join_comma :: "string list \<Rightarrow> string" where
  "join_comma [] = []"
| "join_comma [x] = x"
| "join_comma (x # y # ys) = x @ '','' @ join_comma (y # ys)"

fun toString_js :: "(real \<Rightarrow> string) \<Rightarrow> json \<Rightarrow> string" where
  "toString_js numText JNull = ''null''"
| "toString_js numText (JBool b) = (if b then ''true'' else ''false'')"
| "toString_js numText (JNum x) = numText x"
| "toString_js numText (JStr t) = t"
| "toString_js numText (JArr xs) =
     join_comma (map (\<lambda>v. if v = JNull then [] else toString_js numText v) xs)"
| "toString_js numText (JObj ps) = ''[object Object]''"

text \<open>\<^verbatim>\<open>x && x.toLowerCase().includes(searchTerm)\<close> as a condition.\<close>

fun lower_includes :: "(string \<Rightarrow> string) \<Rightarrow> json option \<Rightarrow> string \<Rightarrow> error + bool" where
  "lower_includes lower (Some (JStr t)) searchTerm =
     Inr (t \<noteq> [] \<and> includes_js (lower t) searchTerm)"
| "lower_includes lower x searchTerm = (if falsy x then Inr False else Inl TypeError)"

text \<open>\<^verbatim>\<open>c?.toString().includes(searchTerm)\<close> as a condition.\<close>

fun coordinate_includes :: "(real \<Rightarrow> string) \<Rightarrow> json option \<Rightarrow> string \<Rightarrow> bool" where
  "coordinate_includes numText None searchTerm = False"
| "coordinate_includes numText (Some JNull) searchTerm = False"
| "coordinate_includes numText (Some v) searchTerm = includes_js (toString_js numText v) searchTerm"

text \<open>
  \<^verbatim>\<open>analysis.location && (lat?... || lon?...)\<close> as a condition; a truthy location is
  not \<^verbatim>\<open>null\<close>, so reading its coordinates does not throw.
\<close>

definition location_includes :: "(real \<Rightarrow> string) \<Rightarrow> json option \<Rightarrow> string \<Rightarrow> bool" where
  "location_includes numText location searchTerm =
     (case location of
        None \<Rightarrow> False
      | Some l \<Rightarrow>
          \<not> falsy location \<and>
          (case get_prop l ''lat'' of
             Inl e \<Rightarrow> False
           | Inr lat \<Rightarrow>
               coordinate_includes numText lat searchTerm \<or>
               (case get_prop l ''lon'' of
                  Inl e \<Rightarrow> False
                | Inr lon \<Rightarrow> coordinate_includes numText lon searchTerm)))"

text \<open>The callback of the filter: story first, then location, then timestamp.\<close>

definition search_match :: "js_strings \<Rightarrow> string \<Rightarrow> json \<Rightarrow> error + bool" where
  "search_match rt searchTerm analysis =
     (case get_prop analysis ''story'' of
        Inl e \<Rightarrow> Inl e
      | Inr story \<Rightarrow>
          (case lower_includes (toLowerCase rt) story searchTerm of
             Inl e \<Rightarrow> Inl e
           | Inr True \<Rightarrow> Inr True
           | Inr False \<Rightarrow>
               (case get_prop analysis ''location'' of
                  Inl e \<Rightarrow> Inl e
                | Inr location \<Rightarrow>
                    if location_includes (numberText rt) location searchTerm then Inr True
                    else
                      (case get_prop analysis ''timestamp'' of
                         Inl e \<Rightarrow> Inl e
                       | Inr timestamp \<Rightarrow>
                           lower_includes (toLowerCase rt) timestamp searchTerm))))"

text \<open>
  \<^verbatim>\<open>searchAnalyses\<close> has no handler either. For a blank query it returns whatever
  \<^verbatim>\<open>getAnalyses\<close> gave.
\<close>

definition searchAnalyses ::
  "js_strings \<Rightarrow> soil_storage \<Rightarrow> local_storage \<Rightarrow> string
     \<Rightarrow> (error + json) \<times> local_storage" where
  "searchAnalyses rt self s query =
     (case getAnalyses self s of
        (analyses, s1) \<Rightarrow>
          if query = [] \<or> trim rt query = [] then (Inr analyses, s1)
          else
            (let searchTerm = trim rt (toLowerCase rt query) in
             case analyses of
               JArr xs \<Rightarrow>
                 (case filter_js (search_match rt searchTerm) xs of
                    Inl e \<Rightarrow> (Inl e, s1)
                  | Inr ys \<Rightarrow> (Inr (JArr ys), s1))
             | v \<Rightarrow> (Inl TypeError, s1)))"

subsection \<open>Pagination\<close>

text \<open>
  \<^verbatim>\<open>slice(start, end)\<close> on a list, for integer arguments: a negative index counts
  from the end, and both are clamped to the list.
\<close>

definition relative_index :: "nat \<Rightarrow> int \<Rightarrow> nat" where
  "relative_index n i = (if i < 0 then nat (max (int n + i) 0) else min (nat i) n)"

definition slice_js :: "'a list \<Rightarrow> int \<Rightarrow> int \<Rightarrow> 'a list" where
  "slice_js xs start stop =
     (let k = relative_index (length xs) start;
          final = relative_index (length xs) stop
      in take (final - k) (drop k xs))"

text \<open>
  The result of \<^verbatim>\<open>Math.ceil(length / pageSize)\<close>: an integer (negative zero counted
  as zero), or what a division by zero gives.
\<close>

datatype number = Finite int | Infinity | NaN

definition ceil_quotient :: "nat \<Rightarrow> int \<Rightarrow> number" where
  "ceil_quotient n pageSize =
     (if pageSize = 0 then (if n = 0 then NaN else Infinity)
      else Finite \<lceil>real n / real_of_int pageSize\<rceil>)"

record page_result =
  data :: json
  total' :: nat
  page :: int
  pageSize :: int
  totalPages :: number

text \<open>
  \<^verbatim>\<open>getAnalysesPaginated\<close> for integer arguments (the defaults are 1 and 12). A
  stored string also has \<^verbatim>\<open>slice\<close> and \<^verbatim>\<open>length\<close>; any other value that is no
  array throws.
\<close>

definition getAnalysesPaginated ::
  "soil_storage \<Rightarrow> local_storage \<Rightarrow> int \<Rightarrow> int \<Rightarrow> (error + page_result) \<times> local_storage" where
  "getAnalysesPaginated self s pg sz =
     (let startIndex = (pg - 1) * sz;
          endIndex = startIndex + sz
      in case getAnalyses self s of
           (JArr xs, s1) \<Rightarrow>
             (Inr \<lparr>data = JArr (slice_js xs startIndex endIndex), total' = length xs,
                   page = pg, pageSize = sz, totalPages = ceil_quotient (length xs) sz\<rparr>, s1)
         | (JStr t, s1) \<Rightarrow>
             (Inr \<lparr>data = JStr (slice_js t startIndex endIndex), total' = length t,
                   page = pg, pageSize = sz, totalPages = ceil_quotient (length t) sz\<rparr>, s1)
         | (v, s1) \<Rightarrow> (Inl TypeError, s1))"

subsection \<open>Settings\<close>

definition getDefaultSettings :: obj where
  "getDefaultSettings =
     [(''useLocation'', JBool True), (''autoSave'', JBool True), (''theme'', JStr ''light''),
      (''language'', JStr ''en''), (''notifications'', JBool True)]"

definition saveSettings ::
  "soil_storage \<Rightarrow> local_storage \<Rightarrow> json \<Rightarrow> (error + bool) \<times> local_storage" where
  "saveSettings self s settings =
     (case isStorageAvailable s of
        (False, s1) \<Rightarrow> (Inl (Error ''LocalStorage is not available''), s1)
      | (True, s1) \<Rightarrow>
          (case setItem s1 (settingsKey self) (Text settings) of
             Inl e \<Rightarrow> (Inl (Error ''Failed to save settings''), s1)
           | Inr s2 \<Rightarrow> (Inr True, s2)))"

text \<open>
  \<^verbatim>\<open>getSettings\<close>: no text or the empty text gives \<^verbatim>\<open>{}\<close> for the saved part, a
  text that does not parse gives the defaults from the handler.
\<close>

definition getSettings :: "soil_storage \<Rightarrow> local_storage \<Rightarrow> obj \<times> local_storage" where
  "getSettings self s =
     (case isStorageAvailable s of
        (False, s1) \<Rightarrow> (getDefaultSettings, s1)
      | (True, s1) \<Rightarrow>
          (case getItem s1 (settingsKey self) of
             None \<Rightarrow> (spread2 (JObj getDefaultSettings) (JObj []), s1)
           | Some (Raw t) \<Rightarrow>
               (if t = [] then spread2 (JObj getDefaultSettings) (JObj []) else getDefaultSettings, s1)
           | Some (Text saved) \<Rightarrow> (spread2 (JObj getDefaultSettings) saved, s1)))"

section \<open>SoilAPI\<close>

text \<open>
  An awaited promise settles with a value, rejects with a message, or stays pending
  for ever. An \<^verbatim>\<open>async\<close> function of the class is a function into \<open>option\<close>: \<open>None\<close>
  means that the promise it returns never settles. None of the functions modelled here
  rejects, each one catches what it awaits.
\<close>

datatype 'a promise = Pending | Rejected string | Fulfilled 'a

text \<open>
  A response: \<^verbatim>\<open>ok\<close>, \<^verbatim>\<open>status\<close>, \<^verbatim>\<open>statusText\<close>, and what \<^verbatim>\<open>json()\<close> resolves to
  (\<open>None\<close> when the body is no JSON and \<^verbatim>\<open>json()\<close> rejects).
\<close>

record response =
  ok :: bool
  status :: nat
  statusText :: string
  body :: "json option"

text \<open>
  The members of the request options that matter here. Headers and the request body
  are left out: what the server answers is a parameter of the model anyway.
\<close>

record request_init =
  http_method :: string
  init_timeout :: "nat option"

text \<open>
  The network answers a request to a URL with an HTTP verb. The Fetch standard knows no
  \<^verbatim>\<open>timeout\<close> member of the options; \<open>honours_timeout\<close> says whether this runtime
  abandons a pending request that carries one.
\<close>

record network =
  server :: "string \<Rightarrow> string \<Rightarrow> response promise"
  honours_timeout :: bool

definition fetch :: "network \<Rightarrow> string \<Rightarrow> request_init \<Rightarrow> response promise" where
  "fetch net url init =
     (case server net url (http_method init) of
        Pending \<Rightarrow>
          (if honours_timeout net \<and> init_timeout init \<noteq> None then Rejected ''timeout''
           else Pending)
      | settled \<Rightarrow> settled)"

record endpoint_paths =
  analyze :: string
  video :: string
  history :: string
  health :: string

record soil_api =
  baseURL :: string
  endpoints :: endpoint_paths
  timeout :: nat

text \<open>The constructor, for the origin of the page.\<close>

definition new_SoilAPI :: "string \<Rightarrow> soil_api" where
  "new_SoilAPI origin =
     \<lparr>baseURL = origin,
      endpoints = \<lparr>analyze = ''/api/analyze'', video = ''/api/video'',
                   history = ''/api/history'', health = ''/health''\<rparr>,
      timeout = 30000\<rparr>"

subsection \<open>Demo data\<close>

text \<open>
  What the browser gives to one call of \<^verbatim>\<open>getDemoAnalysis\<close>: the clock, the
  successive results of \<^verbatim>\<open>Math.random()\<close> (numbered from 0 in the order of the
  calls), the object URL made for the file, and the text of \<^verbatim>\<open>toFixed(4)\<close>.
\<close>

record 'f runtime =
  clk :: clock
  random :: "nat \<Rightarrow> real"
  createObjectURL :: "'f \<Rightarrow> string"
  toFixed4 :: "real \<Rightarrow> string"

record location =
  lat :: real
  lon :: real

record soil_metrics =
  pH :: real
  OM :: real
  P' :: real
  EC :: real
  moisture :: real

record weather_data =
  tempC :: real
  humidity :: real
  weather' :: "string option"
  windSpeed :: real

record demo_data =
  id' :: string
  imagePath :: string
  analysis :: soil_metrics
  weather :: "weather_data option"
  story :: "string option"
  timestamp :: string
  isDemo :: bool

record demo_video =
  videoPath :: string
  videoUrl :: string
  video_isDemo :: bool

text \<open>
  \<^verbatim>\<open>Math.round\<close> rounds halves up. \<^verbatim>\<open>parseFloat(value.toFixed(d))\<close> is the nearest
  multiple of \<open>10\<^sup>-\<^sup>d\<close>, halves away from zero. Both are exact here.
\<close>

definition round_js :: "real \<Rightarrow> real" where
  "round_js x = of_int \<lfloor>x + 1 / 2\<rfloor>"

definition toFixed_value :: "real \<Rightarrow> nat \<Rightarrow> real" where
  "toFixed_value x d =
     (if x < 0 then - (of_int \<lfloor>- x * 10 ^ d + 1 / 2\<rfloor> / 10 ^ d)
      else of_int \<lfloor>x * 10 ^ d + 1 / 2\<rfloor> / 10 ^ d)"

text \<open>\<^verbatim>\<open>getRandomValue(min, max, decimals)\<close>, given the result \<open>r\<close> of \<^verbatim>\<open>Math.random()\<close>.\<close>

definition getRandomValue :: "real \<Rightarrow> real \<Rightarrow> real \<Rightarrow> nat \<Rightarrow> real" where
  "getRandomValue r lo hi decimals =
     (let v = r * (hi - lo) + lo
      in if decimals = 0 then round_js v else toFixed_value v decimals)"

text \<open>\<^verbatim>\<open>xs[i]\<close>, undefined outside the list.\<close>

definition at_index :: "'a list \<Rightarrow> int \<Rightarrow> 'a option" where
  "at_index xs i = (if 0 \<le> i \<and> i < int (length xs) then Some (xs ! nat i) else None)"

definition getRandomWeather :: "real \<Rightarrow> string option" where
  "getRandomWeather r =
     at_index [''Partly cloudy'', ''Sunny'', ''Overcast'', ''Light rain'',
               ''Clear skies'', ''Misty'', ''Light breeze'', ''Calm'']
       \<lfloor>r * 8\<rfloor>"

definition stories :: "string list" where
  "stories =
     [''Your soil shows excellent structure with balanced pH levels. The organic matter content suggests good fertility, making it ideal for most garden vegetables. Consider adding compost in the spring to maintain soil health.'',
      ''This soil sample indicates moderate fertility with room for improvement. The pH is slightly acidic, which is perfect for blueberries and rhododendrons. Adding lime can help balance the pH for other crops.'',
      ''Your soil demonstrates good drainage and moderate nutrient levels. The electrical conductivity suggests appropriate salt levels for healthy plant growth. Regular mulching will help maintain moisture retention.'',
      ''This soil has excellent potential for organic gardening. The organic matter content is promising, and the pH range supports a wide variety of plants. Consider crop rotation to optimize soil health.'']"

text \<open>
  \<^verbatim>\<open>generateDemoStory\<close>: appending to an undefined story would give the text
  \<^verbatim>\<open>undefined\<close> followed by the sentence.
\<close>

definition generateDemoStory :: "(real \<Rightarrow> string) \<Rightarrow> real \<Rightarrow> location option \<Rightarrow> string option" where
  "generateDemoStory fixed4 r loc =
     (let chosen = at_index stories \<lfloor>r * 4\<rfloor>
      in case loc of
           None \<Rightarrow> chosen
         | Some l \<Rightarrow>
             Some ((case chosen of None \<Rightarrow> ''undefined'' | Some t \<Rightarrow> t)
                   @ '' Based on your location coordinates ('' @ fixed4 (lat l) @ '', ''
                   @ fixed4 (lon l)
                   @ ''), this soil type is typical for your region and should support local native plants well.''))"

text \<open>
  A result object \<^verbatim>\<open>{ success, data, error, status }\<close>; a member that the source
  does not set is \<open>None\<close>.
\<close>

datatype payload = Backend json | DemoAnalysis demo_data | DemoVideo demo_video

record api_result =
  success :: bool
  payload :: "payload option"
  error_message :: "string option"
  result_status :: "nat option"

text \<open>
  \<^verbatim>\<open>getDemoAnalysis\<close> resolves after two seconds; the delay is not modelled. The
  five metrics take the draws 0 to 4, the weather the next four when there is a
  location, the story the draw after those.
\<close>

definition getDemoAnalysis :: "'f runtime \<Rightarrow> 'f \<Rightarrow> location option \<Rightarrow> api_result option" where
  "getDemoAnalysis rt imageFile loc =
     (let rnd = random rt;
          demoData =
            \<lparr>id' = ''demo_'' @ decimal (date_now (clk rt)),
             imagePath = createObjectURL rt imageFile,
             analysis =
               \<lparr>pH = getRandomValue (rnd 0) (55 / 10) 8 1,
                OM = getRandomValue (rnd 1) 1 5 1,
                P' = getRandomValue (rnd 2) 10 50 0,
                EC = getRandomValue (rnd 3) (5 / 10) (25 / 10) 1,
                moisture = getRandomValue (rnd 4) 15 35 0\<rparr>,
             weather =
               (case loc of
                  None \<Rightarrow> None
                | Some l \<Rightarrow>
                    Some \<lparr>tempC = getRandomValue (rnd 5) 15 30 0,
                          humidity = getRandomValue (rnd 6) 40 80 0,
                          weather' = getRandomWeather (rnd 7),
                          windSpeed = getRandomValue (rnd 8) 5 20 1\<rparr>),
             story =
               generateDemoStory (toFixed4 rt) (rnd (case loc of None \<Rightarrow> 5 | Some l \<Rightarrow> 9)) loc,
             timestamp = iso_now (clk rt),
             isDemo = True\<rparr>
      in Some \<lparr>success = True, payload = Some (DemoAnalysis demoData),
               error_message = None, result_status = None\<rparr>)"

text \<open>\<^verbatim>\<open>getDemoVideo\<close> resolves after three seconds with a fixed placeholder.\<close>

definition getDemoVideo :: "api_result option" where
  "getDemoVideo =
     Some \<lparr>success = True,
           payload = Some (DemoVideo \<lparr>videoPath = ''/static/demo-video.mp4'',
                                      videoUrl = ''/static/demo-video.mp4'',
                                      video_isDemo = True\<rparr>),
           error_message = None, result_status = None\<rparr>"

subsection \<open>Requests\<close>

text \<open>
  \<^verbatim>\<open>makeRequest\<close> puts \<^verbatim>\<open>this.timeout\<close> into the options it hands to \<^verbatim>\<open>fetch\<close>.
  When \<^verbatim>\<open>json()\<close> rejects, the handler reads \<^verbatim>\<open>text()\<close> from the body that
  \<^verbatim>\<open>json()\<close> has consumed, which rejects in turn, so the outer handler answers.
\<close>

definition makeRequest :: "soil_api \<Rightarrow> network \<Rightarrow> string \<Rightarrow> string \<Rightarrow> api_result option" where
  "makeRequest self net url meth =
     (case fetch net url \<lparr>http_method = meth, init_timeout = Some (timeout self)\<rparr> of
        Pending \<Rightarrow> None
      | Rejected msg \<Rightarrow>
          Some \<lparr>success = False, payload = None, error_message = Some msg, result_status = Some 0\<rparr>
      | Fulfilled r \<Rightarrow>
          if \<not> ok r then
            Some \<lparr>success = False, payload = None,
                  error_message = Some (''HTTP '' @ decimal (status r) @ '': '' @ statusText r),
                  result_status = Some 0\<rparr>
          else
            (case body r of
               Some d \<Rightarrow>
                 Some \<lparr>success = True, payload = Some (Backend d), error_message = None,
                       result_status = Some (status r)\<rparr>
             | None \<Rightarrow>
                 Some \<lparr>success = False, payload = None,
                       error_message = Some ''body stream already read'',
                       result_status = Some 0\<rparr>))"

text \<open>\<^verbatim>\<open>checkHealth\<close> calls \<^verbatim>\<open>fetch\<close> with the URL alone.\<close>

definition checkHealth :: "soil_api \<Rightarrow> network \<Rightarrow> bool option" where
  "checkHealth self net =
     (case fetch net (baseURL self @ health (endpoints self))
             \<lparr>http_method = ''GET'', init_timeout = None\<rparr> of
        Pending \<Rightarrow> None
      | Rejected msg \<Rightarrow> Some False
      | Fulfilled r \<Rightarrow> Some (ok r))"

text \<open>
  \<^verbatim>\<open>analyzeSoil\<close> posts the form with \<^verbatim>\<open>fetch\<close> directly, with a verb, a header
  and a body, and falls back to the demo analysis on every throw.
\<close>

definition analyzeSoil ::
  "soil_api \<Rightarrow> network \<Rightarrow> 'f runtime \<Rightarrow> 'f \<Rightarrow> location option \<Rightarrow> api_result option" where
  "analyzeSoil self net rt imageFile loc =
     (case checkHealth self net of
        None \<Rightarrow> None
      | Some False \<Rightarrow> getDemoAnalysis rt imageFile loc
      | Some True \<Rightarrow>
          (case fetch net (baseURL self @ analyze (endpoints self))
                  \<lparr>http_method = ''POST'', init_timeout = None\<rparr> of
             Pending \<Rightarrow> None
           | Rejected msg \<Rightarrow> getDemoAnalysis rt imageFile loc
           | Fulfilled r \<Rightarrow>
               if \<not> ok r then getDemoAnalysis rt imageFile loc
               else
                 (case body r of
                    None \<Rightarrow> getDemoAnalysis rt imageFile loc
                  | Some result \<Rightarrow>
                      Some \<lparr>success = True, payload = Some (Backend result),
                            error_message = None, result_status = None\<rparr>)))"

definition generateVideo :: "soil_api \<Rightarrow> network \<Rightarrow> api_result option" where
  "generateVideo self net =
     (case checkHealth self net of
        None \<Rightarrow> None
      | Some False \<Rightarrow> getDemoVideo
      | Some True \<Rightarrow>
          (case makeRequest self net (baseURL self @ video (endpoints self)) ''POST'' of
             None \<Rightarrow> None
           | Some res \<Rightarrow> if \<not> success res then getDemoVideo else Some res))"

text \<open>The empty history \<^verbatim>\<open>{ success: true, data: { items: [] } }\<close>.\<close>

definition empty_history :: api_result where
  "empty_history =
     \<lparr>success = True, payload = Some (Backend (JObj [(''items'', JArr [])])),
      error_message = None, result_status = None\<rparr>"

definition getHistory :: "soil_api \<Rightarrow> network \<Rightarrow> api_result option" where
  "getHistory self net =
     (case checkHealth self net of
        None \<Rightarrow> None
      | Some False \<Rightarrow> Some empty_history
      | Some True \<Rightarrow> makeRequest self net (baseURL self @ history (endpoints self)) ''GET'')"

section \<open>Notions used in the statements\<close>

text \<open>
  What \<^verbatim>\<open>getAnalyses\<close> reads under the collection's key whenever the medium is
  available.
\<close>

definition stored :: "soil_storage \<Rightarrow> local_storage \<Rightarrow> json" where
  "stored self s = (case items s (analysesKey self) of Some (Text v) \<Rightarrow> v | _ \<Rightarrow> JArr [])"

text \<open>An empty medium without a quota, a clock reading, and three records to save.\<close>

definition open_storage :: local_storage where
  "open_storage = \<lparr>items = (\<lambda>k. None), accepts = (\<lambda>m. True)\<rparr>"

definition noon :: clock where
  "noon = \<lparr>date_now = 1700000000000, iso_now = ''2023-11-14T22:13:20.000Z'',
           random36 = ''0.k3j9x2m1pq7''\<rparr>"

definition three_saves :: "(clock \<times> obj) list" where
  "three_saves =
     [(noon, [(''id'', JStr ''A'')]), (noon, [(''id'', JStr ''B'')]), (noon, [(''story'', JStr ''C'')])]"

text \<open>A medium that accepts nothing, as when storage is disabled or full.\<close>

definition closed_storage :: local_storage where
  "closed_storage = \<lparr>items = (\<lambda>k. None), accepts = (\<lambda>m. False)\<rparr>"

text \<open>A collection of five records, a medium holding a given collection, and one with settings.\<close>

definition five_records :: "json list" where
  "five_records = map (\<lambda>t. JObj [(''id'', JStr t)]) [''e'', ''d'', ''c'', ''b'', ''a'']"

definition storage_of :: "json \<Rightarrow> local_storage" where
  "storage_of v = \<lparr>items = [''soilstory_analyses'' \<mapsto> Text v], accepts = (\<lambda>m. True)\<rparr>"

definition themed_storage :: local_storage where
  "themed_storage =
     \<lparr>items = [''soilstory_analyses'' \<mapsto> Text (JArr five_records),
               ''soilstory_settings'' \<mapsto> Text (JObj [(''theme'', JStr ''dark'')])],
      accepts = (\<lambda>m. True)\<rparr>"

text \<open>Three stored records, the middle one with nested metrics.\<close>

definition kept_records :: "json list" where
  "kept_records =
     [JObj [(''id'', JStr ''C''), (''story'', JStr ''clay'')],
      JObj [(''id'', JStr ''B''), (''story'', JStr ''loam''),
            (''analysis'', JObj [(''pH'', JNum 6), (''OM'', JNum 2)])],
      JObj [(''id'', JStr ''A''), (''story'', JStr ''sand'')]]"

text \<open>
  The id that \<^verbatim>\<open>analysis.id\<close> reads from a stored element, and a collection in which
  no two elements read the same one.
\<close>

definition id_of :: "json \<Rightarrow> json option" where
  "id_of a = (case get_prop a ''id'' of Inl e \<Rightarrow> None | Inr v \<Rightarrow> v)"

definition ids_unique :: "json list \<Rightarrow> bool" where
  "ids_unique xs = distinct (map id_of xs)"

text \<open>Two saves of records that carry the same id.\<close>

definition same_id_twice :: "(clock \<times> obj) list" where
  "same_id_twice =
     [(noon, [(''id'', JStr ''A''), (''story'', JStr ''first'')]),
      (noon, [(''id'', JStr ''A''), (''story'', JStr ''second'')])]"

text \<open>
  The search as the specification words it: the query is a substring of a text when
  case is ignored, and a record matches when that holds for its story, for its
  timestamp, or for a coordinate of its location.
\<close>

definition ci_substring :: "js_strings \<Rightarrow> string \<Rightarrow> string \<Rightarrow> bool" where
  "ci_substring rt q t = sublist (toLowerCase rt q) (toLowerCase rt t)"

definition spec_search_match :: "js_strings \<Rightarrow> string \<Rightarrow> json \<Rightarrow> bool" where
  "spec_search_match rt q a =
     (case a of
        JObj ps \<Rightarrow>
          (case map_of ps ''story'' of Some (JStr t) \<Rightarrow> ci_substring rt q t | _ \<Rightarrow> False)
          \<or> (case map_of ps ''timestamp'' of Some (JStr t) \<Rightarrow> ci_substring rt q t | _ \<Rightarrow> False)
          \<or> (case map_of ps ''location'' of
                Some (JObj l) \<Rightarrow>
                  (case map_of l ''lat'' of Some (JNum x) \<Rightarrow> ci_substring rt q (numberText rt x) | _ \<Rightarrow> False)
                  \<or> (case map_of l ''lon'' of Some (JNum x) \<Rightarrow> ci_substring rt q (numberText rt x) | _ \<Rightarrow> False)
              | _ \<Rightarrow> False)
      | _ \<Rightarrow> False)"

text \<open>
  A record of the data model: story and timestamp are texts when present, the
  location, when present, has numbers for the coordinates it carries.
\<close>

fun text_or_missing :: "json option \<Rightarrow> bool" where
  "text_or_missing None = True"
| "text_or_missing (Some JNull) = True"
| "text_or_missing (Some (JStr t)) = True"
| "text_or_missing (Some v) = False"

fun number_or_missing :: "json option \<Rightarrow> bool" where
  "number_or_missing None = True"
| "number_or_missing (Some JNull) = True"
| "number_or_missing (Some (JNum x)) = True"
| "number_or_missing (Some v) = False"

fun location_or_missing :: "json option \<Rightarrow> bool" where
  "location_or_missing None = True"
| "location_or_missing (Some JNull) = True"
| "location_or_missing (Some (JObj l)) =
     (number_or_missing (map_of l ''lat'') \<and> number_or_missing (map_of l ''lon''))"
| "location_or_missing (Some v) = False"

fun typed_record :: "json \<Rightarrow> bool" where
  "typed_record (JObj ps) =
     (text_or_missing (map_of ps ''story'') \<and> text_or_missing (map_of ps ''timestamp'')
      \<and> location_or_missing (map_of ps ''location''))"
| "typed_record v = False"

text \<open>
  A runtime for texts of ASCII characters, used in the examples below: on such texts
  \<^verbatim>\<open>toLowerCase\<close> maps the capitals A to Z and \<^verbatim>\<open>trim\<close> removes the space, the
  tabulators and the line ends. The numbers of the examples have the texts given.
\<close>

definition ascii_lower_char :: "char \<Rightarrow> char" where
  "ascii_lower_char c =
     (case map_of (zip ''ABCDEFGHIJKLMNOPQRSTUVWXYZ'' ''abcdefghijklmnopqrstuvwxyz'') c of
        None \<Rightarrow> c | Some l \<Rightarrow> l)"

definition ascii_toLowerCase :: "string \<Rightarrow> string" where
  "ascii_toLowerCase s = map ascii_lower_char s"

definition ascii_space :: "char \<Rightarrow> bool" where
  "ascii_space c = (c \<in> set [CHR '' '', CHR 0x09, CHR 0x0A, CHR 0x0B, CHR 0x0C, CHR 0x0D])"

definition ascii_trim :: "string \<Rightarrow> string" where
  "ascii_trim s = rev (dropWhile ascii_space (rev (dropWhile ascii_space s)))"

definition sample_number_text :: "real \<Rightarrow> string" where
  "sample_number_text x = (if x = 12 then ''12'' else if x = 77 then ''77'' else ''0'')"

definition ascii_strings :: js_strings where
  "ascii_strings =
     \<lparr>toLowerCase = ascii_toLowerCase, trim = ascii_trim, numberText = sample_number_text\<rparr>"

text \<open>Two records to search.\<close>

definition sandy_note :: json where
  "sandy_note =
     JObj [(''id'', JStr ''N2''), (''story'', JStr ''Sandy SOIL near the river''),
           (''timestamp'', JStr ''2024-03-01T10:00:00.000Z'')]"

definition clay_note :: json where
  "clay_note =
     JObj [(''id'', JStr ''N1''), (''story'', JStr ''Heavy clay''),
           (''timestamp'', JStr ''2024-02-01T10:00:00.000Z''),
           (''location'', JObj [(''lat'', JNum 12), (''lon'', JNum 77)])]"

definition soil_notes :: "json list" where
  "soil_notes = [sandy_note, clay_note]"

text \<open>
  Networks: one whose server never answers, one that answers the health check and then
  never answers the upload, one that refuses every connection. And a browser whose
  random generator always returns one half.
\<close>

definition silent_network :: "bool \<Rightarrow> network" where
  "silent_network h = \<lparr>server = (\<lambda>url verb. Pending), honours_timeout = h\<rparr>"

definition stalled_upload :: "bool \<Rightarrow> network" where
  "stalled_upload h =
     \<lparr>server = (\<lambda>url verb.
         if url = ''http://localhost:5000/health''
         then Fulfilled \<lparr>ok = True, status = 200, statusText = ''OK'', body = None\<rparr>
         else Pending),
      honours_timeout = h\<rparr>"

definition offline_network :: network where
  "offline_network = \<lparr>server = (\<lambda>url verb. Rejected ''Failed to fetch''), honours_timeout = False\<rparr>"

definition even_draws :: "string runtime" where
  "even_draws =
     \<lparr>clk = noon, random = (\<lambda>k. 1 / 2), createObjectURL = (\<lambda>f. ''blob:'' @ f),
      toFixed4 = sample_number_text\<rparr>"

section \<open>The probe and the stored collection\<close>

lemma probe_fst: "fst (isStorageAvailable s) = accepts s ((items s)(''__storage_test__'' \<mapsto> Raw ''__storage_test__''))"
  by (simp add: isStorageAvailable_def setItem_def Let_def)

lemma probe_items:
  "items (snd (isStorageAvailable s)) k =
     (if fst (isStorageAvailable s) \<and> k = ''__storage_test__'' then None else items s k)"
  by (simp add: isStorageAvailable_def setItem_def removeItem_def Let_def)

lemma probe_accepts: "accepts (snd (isStorageAvailable s)) = accepts s"
  by (simp add: isStorageAvailable_def setItem_def removeItem_def Let_def)

lemma probe_stored:
  "analysesKey self \<noteq> ''__storage_test__'' \<Longrightarrow> stored self (snd (isStorageAvailable s)) = stored self s"
  by (simp add: stored_def probe_items)

lemma probe_again: "fst (isStorageAvailable (snd (isStorageAvailable s))) = fst (isStorageAvailable s)"
  apply (simp add: probe_fst probe_accepts)
  apply (simp add: isStorageAvailable_def setItem_def removeItem_def Let_def)
  done

lemma getAnalyses_fst:
  assumes "analysesKey self \<noteq> ''__storage_test__''"
  shows "fst (getAnalyses self s) = (if fst (isStorageAvailable s) then stored self s else JArr [])"
proof -
  obtain b s1 where p: "isStorageAvailable s = (b, s1)" by (cases "isStorageAvailable s")
  have "items s1 (analysesKey self) = items s (analysesKey self)"
    using probe_items[of s "analysesKey self"] assms p by simp
  then show ?thesis using p
    by (cases b) (simp_all add: getAnalyses_def getItem_def stored_def split: option.splits item.splits)
qed

lemma getAnalyses_snd: "snd (getAnalyses self s) = snd (isStorageAvailable s)"
  by (cases "isStorageAvailable s")
     (auto simp: getAnalyses_def split: option.splits item.splits bool.splits)

lemma take_cap: "(if length ys > c then take c ys else ys) = take c ys"
  by simp

lemma save_success:
  assumes k: "analysesKey self \<noteq> ''__storage_test__''"
    and ok: "saveAnalysis self c s a = (Inr i, s')"
  shows "\<exists>xs. stored self s = JArr xs \<and> fst (isStorageAvailable s) \<and>
           stored self s' = JArr (take (maxStorageSize self) (JObj (stamped c a) # xs))"
proof -
  obtain b s1 where p: "isStorageAvailable s = (b, s1)" by (cases "isStorageAvailable s")
  obtain v s2 where g: "getAnalyses self s1 = (v, s2)" by (cases "getAnalyses self s1")
  from ok p have b: b by (auto simp: saveAnalysis_def split: bool.splits)
  from ok p g b obtain xs where v: "v = JArr xs"
    by (cases v) (auto simp: saveAnalysis_def Let_def)
  let ?zs = "take (maxStorageSize self) (JObj (stamped c a) # xs)"
  from ok p g b v obtain s3 where w: "setItem s2 (analysesKey self) (Text (JArr ?zs)) = Inr s3"
    and s': "s' = updateStorageInfo s3"
    by (auto simp: saveAnalysis_def Let_def take_cap simp del: take_Suc_Cons split: sum.splits)
  have s1: "s1 = snd (isStorageAvailable s)" using p by simp
  have "fst (isStorageAvailable s)" using b p by simp
  then have "fst (isStorageAvailable s1)" by (simp add: s1 probe_again)
  with g k have "v = stored self s1" using getAnalyses_fst[OF k, of s1] by simp
  then have st: "stored self s = JArr xs" using v k by (simp add: s1 probe_stored)
  from w have "items s3 (analysesKey self) = Some (Text (JArr ?zs))"
    by (auto simp: setItem_def Let_def split: if_splits)
  then have "stored self s3 = JArr ?zs" by (simp add: stored_def)
  then have "stored self s' = JArr ?zs" using k by (simp add: s' updateStorageInfo_def probe_stored)
  with st b p show ?thesis by simp
qed

lemma take_append_take: "take c (ys @ take c zs) = take c (ys @ zs)"
  by (simp add: min_def)

lemma save_all_stored:
  assumes k: "analysesKey self \<noteq> ''__storage_test__''"
  shows "save_all self s saves = (Inr (), s') \<Longrightarrow> saves \<noteq> [] \<Longrightarrow>
     \<exists>xs. stored self s = JArr xs \<and>
       stored self s' = JArr (take (maxStorageSize self) (rev (map (\<lambda>(c, a). JObj (stamped c a)) saves) @ xs))"
proof (induction saves arbitrary: s)
  case Nil then show ?case by simp
next
  case (Cons p rest)
  obtain c a where p: "p = (c, a)" by (cases p)
  from Cons.prems p obtain i s1 where sv: "saveAnalysis self c s a = (Inr i, s1)"
    and r: "save_all self s1 rest = (Inr (), s')"
    by (auto split: prod.splits sum.splits)
  from save_success[OF k sv] obtain xs where xs: "stored self s = JArr xs"
    and s1: "stored self s1 = JArr (take (maxStorageSize self) (JObj (stamped c a) # xs))" by blast
  show ?case
  proof (cases "rest = []")
    case True
    with r have "s' = s1" by simp
    with xs s1 p True show ?thesis by simp
  next
    case False
    from Cons.IH[OF r False] s1 have
      "stored self s' = JArr (take (maxStorageSize self)
          (rev (map (\<lambda>(c, a). JObj (stamped c a)) rest) @ take (maxStorageSize self) (JObj (stamped c a) # xs)))"
      by auto
    then show ?thesis using xs p by (simp add: take_append_take del: take_Suc_Cons)
  qed
qed


section \<open>Capacity and eviction\<close>

text \<open>
  C1. After a run of successful saves that is longer than the capacity \<open>C\<close>, and with
  the medium still available, \<^verbatim>\<open>getAnalyses\<close> returns exactly \<open>C\<close> records: the \<open>C\<close>
  most recently saved ones (as \<^verbatim>\<open>saveAnalysis\<close> completed them with id and timestamp),
  the latest first. Each save puts its record at the head and cuts the list at the
  tail, whatever the collection held before.
\<close>

theorem save_beyond_capacity:
  assumes "save_all (with_capacity C) s saves = (Inr (), s')"
    and "length saves > C"
    and "fst (isStorageAvailable s')"
  shows "fst (getAnalyses (with_capacity C) s') =
           JArr (take C (rev (map (\<lambda>(c, a). JObj (stamped c a)) saves)))
         \<and> length (take C (rev (map (\<lambda>(c, a). JObj (stamped c a)) saves))) = C"
proof -
  have k: "analysesKey (with_capacity C) \<noteq> ''__storage_test__''"
    by (simp add: with_capacity_def new_SoilStorage_def)
  have ne: "saves \<noteq> []" using assms(2) by auto
  from save_all_stored[OF k assms(1) ne] obtain xs where
    "stored (with_capacity C) s' = JArr (take C (rev (map (\<lambda>(c, a). JObj (stamped c a)) saves) @ xs))"
    by (auto simp: with_capacity_def)
  then show ?thesis using assms(2,3) getAnalyses_fst[OF k, of s'] by simp
qed


lemma generateId_noon: "generateId noon = ''analysis_1700000000000_k3j9x2m1p''"
  by (simp add: generateId_def noon_def decimal.simps digit_char_def)


lemma three_saves_succeed: "fst (save_all (with_capacity 2) open_storage three_saves) = Inr ()"
  by (simp add: three_saves_def open_storage_def with_capacity_def new_SoilStorage_def
      saveAnalysis_def isStorageAvailable_def setItem_def removeItem_def getAnalyses_def getItem_def
      updateStorageInfo_def Let_def)

theorem save_beyond_capacity_witness:
  "fst (save_all (with_capacity 2) open_storage three_saves) = Inr ()
   \<and> 2 < length three_saves
   \<and> fst (isStorageAvailable (snd (save_all (with_capacity 2) open_storage three_saves)))
   \<and> fst (getAnalyses (with_capacity 2) (snd (save_all (with_capacity 2) open_storage three_saves)))
       = JArr [JObj [(''story'', JStr ''C''), (''id'', JStr ''analysis_1700000000000_k3j9x2m1p''),
                     (''timestamp'', JStr ''2023-11-14T22:13:20.000Z'')],
               JObj [(''id'', JStr ''B''), (''timestamp'', JStr ''2023-11-14T22:13:20.000Z'')]]"
proof -
  have h1: "save_all (with_capacity 2) open_storage three_saves
            = (Inr (), snd (save_all (with_capacity 2) open_storage three_saves))"
    using three_saves_succeed by (metis prod.collapse)
  have h2: "2 < length three_saves" by (simp add: three_saves_def)
  have h3: "fst (isStorageAvailable (snd (save_all (with_capacity 2) open_storage three_saves)))"
  by (simp add: three_saves_def open_storage_def with_capacity_def new_SoilStorage_def
      saveAnalysis_def isStorageAvailable_def setItem_def removeItem_def getAnalyses_def getItem_def
      updateStorageInfo_def Let_def)
  have st: "map (\<lambda>(c, a). JObj (stamped c a)) three_saves = 
     [JObj [(''id'', JStr ''A''), (''timestamp'', JStr ''2023-11-14T22:13:20.000Z'')],
      JObj [(''id'', JStr ''B''), (''timestamp'', JStr ''2023-11-14T22:13:20.000Z'')],
      JObj [(''story'', JStr ''C''), (''id'', JStr ''analysis_1700000000000_k3j9x2m1p''),
                     (''timestamp'', JStr ''2023-11-14T22:13:20.000Z'')]]"
    by (simp add: three_saves_def stamped_def with_id_def with_timestamp_def generateId_noon) (simp add: noon_def)
  show ?thesis using save_beyond_capacity[OF h1 h2 h3] three_saves_succeed h2 h3 by (simp add: st)
qed

section \<open>Unavailable storage\<close>

lemma unavailable_probe: "\<not> fst (isStorageAvailable s) \<Longrightarrow> isStorageAvailable s = (False, s)"
  by (auto simp: isStorageAvailable_def split: sum.splits)

text \<open>
  C3. When the probe fails, \<^verbatim>\<open>saveAnalysis\<close>, \<^verbatim>\<open>updateAnalysis\<close>, \<^verbatim>\<open>deleteAnalysis\<close>
  and \<^verbatim>\<open>clearAnalyses\<close> throw \<^verbatim>\<open>LocalStorage is not available\<close>, while the reading
  operations return empty results without throwing: \<^verbatim>\<open>getAnalyses\<close> and
  \<^verbatim>\<open>searchAnalyses\<close> the empty list, \<^verbatim>\<open>getAnalysis\<close> undefined,
  \<^verbatim>\<open>getAnalysesPaginated\<close> an empty page of a collection of size 0. The storage is
  left as it was.
\<close>

theorem unavailable_dichotomy:
  assumes "\<not> fst (isStorageAvailable s)"
  shows "saveAnalysis self c s a = (Inl (Error ''LocalStorage is not available''), s)
       \<and> updateAnalysis self s i u = (Inl (Error ''LocalStorage is not available''), s)
       \<and> deleteAnalysis self s i = (Inl (Error ''LocalStorage is not available''), s)
       \<and> clearAnalyses self s = (Inl (Error ''LocalStorage is not available''), s)
       \<and> getAnalyses self s = (JArr [], s)
       \<and> getAnalysis self s i = (Inr None, s)
       \<and> searchAnalyses rt self s q = (Inr (JArr []), s)
       \<and> (\<exists>r. getAnalysesPaginated self s pg sz = (Inr r, s) \<and> data r = JArr [] \<and> total' r = 0)"
proof -
  have p: "isStorageAvailable s = (False, s)" using assms by (rule unavailable_probe)
  have g: "getAnalyses self s = (JArr [], s)" by (simp add: getAnalyses_def p)
  have "saveAnalysis self c s a = (Inl (Error ''LocalStorage is not available''), s)"
    by (simp add: saveAnalysis_def p)
  moreover have "updateAnalysis self s i u = (Inl (Error ''LocalStorage is not available''), s)"
    by (simp add: updateAnalysis_def p)
  moreover have "deleteAnalysis self s i = (Inl (Error ''LocalStorage is not available''), s)"
    by (simp add: deleteAnalysis_def p)
  moreover have "clearAnalyses self s = (Inl (Error ''LocalStorage is not available''), s)"
    by (simp add: clearAnalyses_def p)
  moreover have "getAnalysis self s i = (Inr None, s)"
    by (simp add: getAnalysis_def g)
  moreover have "searchAnalyses rt self s q = (Inr (JArr []), s)"
    by (simp add: searchAnalyses_def g Let_def)
  moreover have "\<exists>r. getAnalysesPaginated self s pg sz = (Inr r, s) \<and> data r = JArr [] \<and> total' r = 0"
    by (simp add: getAnalysesPaginated_def g Let_def slice_js_def)
  ultimately show ?thesis using g by simp
qed

theorem unavailable_dichotomy_witness:
  "\<not> fst (isStorageAvailable closed_storage)
   \<and> saveAnalysis new_SoilStorage noon closed_storage [(''story'', JStr ''C'')]
       = (Inl (Error ''LocalStorage is not available''), closed_storage)
   \<and> getAnalyses new_SoilStorage closed_storage = (JArr [], closed_storage)"
proof -
  have h: "\<not> fst (isStorageAvailable closed_storage)"
    by (simp add: isStorageAvailable_def setItem_def closed_storage_def)
  show ?thesis
    using h unavailable_dichotomy[OF h, of new_SoilStorage noon "[(''story'', JStr ''C'')]"] by simp
qed

section \<open>Pagination\<close>

lemma slice_js_page:
  assumes "1 \<le> pg" "1 \<le> sz"
  shows "slice_js xs ((pg - 1) * sz) ((pg - 1) * sz + sz) = take (nat sz) (drop (nat ((pg - 1) * sz)) xs)"
proof -
  let ?a = "(pg - 1) * sz"
  have a: "0 \<le> ?a" using assms by simp
  have b: "0 \<le> ?a + sz" using assms a by linarith
  have "min (nat (?a + sz)) (length xs) - min (nat ?a) (length xs) = min (nat sz) (length xs - nat ?a)"
    using a assms by (simp add: nat_add_distrib min_def) 
  then show ?thesis using a b
    by (simp add: slice_js_def relative_index_def Let_def min_def) 
qed

text \<open>
  C9. For a collection of \<open>n\<close> records, a page number from 1 and a positive page size,
  \<^verbatim>\<open>getAnalysesPaginated\<close> returns the records from position \<open>(page - 1) * pageSize\<close>
  up to, not including, \<open>page * pageSize\<close>, the total \<open>n\<close>, the page and the page size
  it was given, and \<open>\<lceil>n / pageSize\<rceil>\<close> as the number of pages. For a page past the
  end the data is empty, with the same total and number of pages.
\<close>

theorem paginate_slices:
  assumes "fst (getAnalyses self s) = JArr xs" and "1 \<le> pg" and "1 \<le> sz"
  shows "fst (getAnalysesPaginated self s pg sz) =
           Inr \<lparr>data = JArr (take (nat sz) (drop (nat ((pg - 1) * sz)) xs)),
                total' = length xs, page = pg, pageSize = sz,
                totalPages = Finite \<lceil>real (length xs) / real_of_int sz\<rceil>\<rparr>
         \<and> (int (length xs) \<le> (pg - 1) * sz \<longrightarrow>
              take (nat sz) (drop (nat ((pg - 1) * sz)) xs) = [])"
proof -
  obtain s1 where g: "getAnalyses self s = (JArr xs, s1)"
    using assms(1) by (cases "getAnalyses self s") simp
  have z: "sz \<noteq> 0" using assms(3) by simp
  show ?thesis using slice_js_page[OF assms(2,3), of xs] z
    by (simp add: getAnalysesPaginated_def g Let_def ceil_quotient_def)
qed

lemma five_stored: "fst (getAnalyses new_SoilStorage (storage_of (JArr five_records))) = JArr five_records"
  by (simp add: getAnalyses_def isStorageAvailable_def setItem_def removeItem_def getItem_def
        storage_of_def new_SoilStorage_def)

theorem paginate_slices_witness:
  "fst (getAnalyses new_SoilStorage (storage_of (JArr five_records))) = JArr five_records
   \<and> (1::int) \<le> 3 \<and> (1::int) \<le> 12
   \<and> fst (getAnalysesPaginated new_SoilStorage (storage_of (JArr five_records)) 3 12) =
       Inr \<lparr>data = JArr [], total' = 5, page = 3, pageSize = 12, totalPages = Finite 1\<rparr>"
proof -
  have l: "length five_records = 5" by (simp add: five_records_def)
  have c: "\<lceil>(5::real) / 12\<rceil> = 1" by (simp add: ceiling_eq_iff)
  show ?thesis
    using paginate_slices[OF five_stored, of 3 12] five_stored by (simp add: l c)
qed

section \<open>Clearing the collection\<close>

text \<open>
  C10. \<^verbatim>\<open>clearAnalyses\<close> leaves the settings alone: whether it succeeds or throws,
  the text under the settings key is the one from before, and \<^verbatim>\<open>getSettings\<close>
  returns afterwards what it returned before, as long as the medium is as available
  as it was. The only keys whose text can change are the collection's key and the
  sentinel of the probe.
\<close>

theorem clear_keeps_settings:
  assumes "clearAnalyses new_SoilStorage s = (r, s')"
    and "fst (isStorageAvailable s') = fst (isStorageAvailable s)"
  shows "fst (getSettings new_SoilStorage s') = fst (getSettings new_SoilStorage s)
         \<and> items s' (settingsKey new_SoilStorage) = items s (settingsKey new_SoilStorage)
         \<and> (\<forall>k. k = analysesKey new_SoilStorage \<or> k = ''__storage_test__''
                  \<or> items s' k = items s k)"
proof -
  have others: "\<forall>k. k = analysesKey new_SoilStorage \<or> k = ''__storage_test__''
                  \<or> items s' k = items s k"
    using assms(1)
    by (cases "isStorageAvailable s")
       (auto simp: clearAnalyses_def removeItem_def new_SoilStorage_def isStorageAvailable_def
          setItem_def Let_def split: bool.splits sum.splits if_splits)
  have i: "items s' ''soilstory_settings'' = items s ''soilstory_settings''"
    using assms(1)
    by (cases "isStorageAvailable s")
       (auto simp: clearAnalyses_def removeItem_def new_SoilStorage_def isStorageAvailable_def
          setItem_def Let_def split: bool.splits sum.splits if_splits)
  have g: "\<And>t. fst (getSettings new_SoilStorage t) =
      (if fst (isStorageAvailable t) then
         (case items t ''soilstory_settings'' of
            None \<Rightarrow> spread2 (JObj getDefaultSettings) (JObj [])
          | Some (Raw x) \<Rightarrow> if x = [] then spread2 (JObj getDefaultSettings) (JObj []) else getDefaultSettings
          | Some (Text saved) \<Rightarrow> spread2 (JObj getDefaultSettings) saved)
       else getDefaultSettings)"
    subgoal for t
      using probe_items[of t "''soilstory_settings''"]
      by (cases "isStorageAvailable t")
         (auto simp: getSettings_def getItem_def new_SoilStorage_def split: option.splits item.splits bool.splits)
    done
  have "fst (getSettings new_SoilStorage s') = fst (getSettings new_SoilStorage s)"
    using i assms(2) by (simp add: g)
  moreover have "items s' (settingsKey new_SoilStorage) = items s (settingsKey new_SoilStorage)"
    using i by (simp add: new_SoilStorage_def)
  ultimately show ?thesis using others by simp
qed

theorem clear_keeps_settings_witness:
  "fst (clearAnalyses new_SoilStorage themed_storage) = Inr True
   \<and> fst (getAnalyses new_SoilStorage (snd (clearAnalyses new_SoilStorage themed_storage))) = JArr []
   \<and> fst (getSettings new_SoilStorage (snd (clearAnalyses new_SoilStorage themed_storage)))
       = [(''useLocation'', JBool True), (''autoSave'', JBool True), (''theme'', JStr ''dark''),
          (''language'', JStr ''en''), (''notifications'', JBool True)]
   \<and> fst (getSettings new_SoilStorage themed_storage)
       = [(''useLocation'', JBool True), (''autoSave'', JBool True), (''theme'', JStr ''dark''),
          (''language'', JStr ''en''), (''notifications'', JBool True)]"
proof -
  let ?s' = "snd (clearAnalyses new_SoilStorage themed_storage)"
  have h0: "fst (clearAnalyses new_SoilStorage themed_storage) = Inr True"
    by (simp add: clearAnalyses_def isStorageAvailable_def setItem_def themed_storage_def)
  then have h1: "clearAnalyses new_SoilStorage themed_storage = (Inr True, ?s')"
    by (metis prod.collapse)
  have h2: "fst (isStorageAvailable ?s') = fst (isStorageAvailable themed_storage)"
    by (simp add: clearAnalyses_def isStorageAvailable_def setItem_def removeItem_def themed_storage_def)
  have a: "fst (getAnalyses new_SoilStorage ?s') = JArr []"
    by (simp add: clearAnalyses_def getAnalyses_def isStorageAvailable_def setItem_def removeItem_def
          getItem_def themed_storage_def new_SoilStorage_def)
  have b: "fst (getSettings new_SoilStorage themed_storage)
       = [(''useLocation'', JBool True), (''autoSave'', JBool True), (''theme'', JStr ''dark''),
          (''language'', JStr ''en''), (''notifications'', JBool True)]"
    by (simp add: getSettings_def isStorageAvailable_def setItem_def removeItem_def
          getItem_def themed_storage_def new_SoilStorage_def spread2_def assign_all_def getDefaultSettings_def)
  show ?thesis using clear_keeps_settings[OF h1 h2] h0 a b by simp
qed

section \<open>Objects and their properties\<close>

lemma map_of_set_prop: "map_of (set_prop ps k v) k' = (if k' = k then Some v else map_of ps k')"
  by (induction ps) auto

lemma keys_set_prop: "fst ` set (set_prop ps k v) = insert k (fst ` set ps)"
proof (induction ps)
  case Nil
  then show ?case by simp
next
  case (Cons p ps)
  then show ?case by (cases p) (simp add: insert_commute)
qed

lemma map_of_assign_all:
  "distinct (map fst src) \<Longrightarrow>
   map_of (assign_all t src) k = (case map_of src k of Some v \<Rightarrow> Some v | None \<Rightarrow> map_of t k)"
proof (induction src arbitrary: t)
  case Nil
  then show ?case by (simp add: assign_all_def)
next
  case (Cons p src)
  obtain k0 v0 where p: "p = (k0, v0)" by (cases p)
  have step: "assign_all t (p # src) = assign_all (set_prop t k0 v0) src"
    by (simp add: assign_all_def p)
  from Cons.prems p have d: "distinct (map fst src)" and n: "k0 \<notin> fst ` set src" by auto
  from n have none: "map_of src k0 = None" by (simp add: map_of_eq_None_iff)
  show ?case
    unfolding step
    using Cons.IH[OF d, of "set_prop t k0 v0"] none
    by (auto simp: p map_of_set_prop split: option.splits)
qed

lemma keys_assign_all:
  "fst ` set (assign_all t src) = fst ` set t \<union> fst ` set src"
proof (induction src arbitrary: t)
  case Nil
  then show ?case by (simp add: assign_all_def)
next
  case (Cons p src)
  obtain k0 v0 where p: "p = (k0, v0)" by (cases p)
  have step: "assign_all t (p # src) = assign_all (set_prop t k0 v0) src"
    by (simp add: assign_all_def p)
  show ?case
    unfolding step using Cons.IH[of "set_prop t k0 v0"] by (simp add: p keys_set_prop)
qed

lemma spread2_lookup:
  assumes "distinct (map fst u)"
  shows "map_of (spread2 (JObj old) (JObj u)) k =
           (if k \<in> fst ` set u then map_of u k else map_of old k)"
proof (cases "map_of u k")
  case None
  then have "k \<notin> fst ` set u" by (simp add: map_of_eq_None_iff)
  with None show ?thesis by (simp add: spread2_def map_of_assign_all[OF assms])
next
  case (Some v)
  then have "k \<in> fst ` set u" by (force dest: map_of_SomeD)
  with Some show ?thesis by (simp add: spread2_def map_of_assign_all[OF assms])
qed

section \<open>Updating a record\<close>

lemma findIndex_js_Some:
  "findIndex_js p xs = Inr (Some j) \<Longrightarrow>
     j < length xs \<and> p (xs ! j) = Inr True \<and> (\<forall>k<j. p (xs ! k) = Inr False)"
proof (induction xs arbitrary: j)
  case Nil
  then show ?case by simp
next
  case (Cons x xs)
  show ?case
  proof (cases "p x")
    case (Inl e)
    with Cons.prems show ?thesis by simp
  next
    case (Inr b)
    show ?thesis
    proof (cases b)
      case True
      with Inr Cons.prems show ?thesis by simp
    next
      case False
      with Inr Cons.prems obtain j' where j': "findIndex_js p xs = Inr (Some j')" "j = Suc j'"
        by (auto split: sum.splits option.splits)
      from Cons.IH[OF j'(1)] Inr False j'(2) show ?thesis
        by (auto simp: less_Suc_eq_0_disj)
    qed
  qed
qed

lemma id_is_True: "id_is i a = Inr True \<Longrightarrow> \<exists>ps. a = JObj ps \<and> strict_equals (map_of ps ''id'') i"
  by (cases a) (auto simp: id_is_def)

lemma update_success:
  assumes k: "analysesKey self \<noteq> ''__storage_test__''"
    and ok: "updateAnalysis self s i u = (Inr b, s')"
  shows "\<exists>xs j. stored self s = JArr xs \<and> fst (isStorageAvailable s) \<and>
           findIndex_js (id_is i) xs = Inr (Some j) \<and>
           stored self s' = JArr (xs[j := JObj (spread2 (xs ! j) (JObj u))])"
proof -
  obtain a s1 where p: "isStorageAvailable s = (a, s1)" by (cases "isStorageAvailable s")
  obtain v s2 where g: "getAnalyses self s1 = (v, s2)" by (cases "getAnalyses self s1")
  from ok p have a: a by (auto simp: updateAnalysis_def split: bool.splits)
  from ok p g a obtain xs where v: "v = JArr xs"
    by (cases v) (auto simp: updateAnalysis_def)
  from ok p g a v obtain j where j: "findIndex_js (id_is i) xs = Inr (Some j)"
    by (cases "findIndex_js (id_is i) xs") (auto simp: updateAnalysis_def split: option.splits)
  let ?zs = "xs[j := JObj (spread2 (xs ! j) (JObj u))]"
  from ok p g a v j obtain s3 where w: "setItem s2 (analysesKey self) (Text (JArr ?zs)) = Inr s3"
    and s': "s' = s3"
    by (auto simp: updateAnalysis_def split: sum.splits)
  have s1: "s1 = snd (isStorageAvailable s)" using p by simp
  have av: "fst (isStorageAvailable s)" using a p by simp
  then have "fst (isStorageAvailable s1)" by (simp add: s1 probe_again)
  with g k have "v = stored self s1" using getAnalyses_fst[OF k, of s1] by simp
  then have st: "stored self s = JArr xs" using v k by (simp add: s1 probe_stored)
  from w have "items s3 (analysesKey self) = Some (Text (JArr ?zs))"
    by (auto simp: setItem_def Let_def split: if_splits)
  then have "stored self s' = JArr ?zs" by (simp add: stored_def s')
  with st av j show ?thesis by blast
qed

lemma findIndex_js_first:
  "j < length xs \<Longrightarrow> p (xs ! j) = Inr True \<Longrightarrow> \<forall>k<j. p (xs ! k) = Inr False \<Longrightarrow>
   findIndex_js p xs = Inr (Some j)"
proof (induction xs arbitrary: j)
  case Nil
  then show ?case by simp
next
  case (Cons x xs)
  show ?case
  proof (cases j)
    case 0
    with Cons.prems show ?thesis by simp
  next
    case (Suc j')
    from Cons.prems Suc have x: "p x = Inr False" by auto
    from Cons.prems Suc have "j' < length xs" "p (xs ! j') = Inr True" "\<forall>k<j'. p (xs ! k) = Inr False"
      by auto
    from Cons.IH[OF this] x Suc show ?thesis by simp
  qed
qed

lemma update_outcomes:
  "fst (updateAnalysis self s i u) = Inr True
   \<or> fst (updateAnalysis self s i u) = Inl (Error ''Failed to update analysis'')
   \<or> (fst (updateAnalysis self s i u) = Inl (Error ''LocalStorage is not available'')
       \<and> \<not> fst (isStorageAvailable s))"
proof -
  obtain a s1 where p: "isStorageAvailable s = (a, s1)" by (cases "isStorageAvailable s")
  obtain v s2 where g: "getAnalyses self s1 = (v, s2)" by (cases "getAnalyses self s1")
  show ?thesis
    by (cases a; cases v)
       (auto simp: updateAnalysis_def p g split: sum.splits option.splits)
qed

text \<open>
  C2. Take a stored record with id \<open>i\<close>, the one that \<^verbatim>\<open>updateAnalysis\<close> addresses (no
  record before it has that id), and an object \<open>u\<close> of fields. Unless the medium
  refuses the write, \<^verbatim>\<open>updateAnalysis(i, u)\<close> returns true and puts in the place of
  that record a record that has, for every field named in \<open>u\<close>, the value from \<open>u\<close> as
  a whole (a nested object is not merged), and for every other field the value it had;
  its fields are those of the old record and of \<open>u\<close>. Every other record of the
  collection stays as it was, at its position.
\<close>

theorem update_replaces_named_fields:
  assumes "fst (getAnalyses (with_capacity C) s) = JArr xs"
    and "j < length xs" and "xs ! j = JObj old"
    and "strict_equals (map_of old ''id'') i"
    and "\<forall>k<j. id_is i (xs ! k) = Inr False"
    and "distinct (map fst u)"
    and "updateAnalysis (with_capacity C) s i u = (r, s')"
    and "r \<noteq> Inl (Error ''Failed to update analysis'')"
    and "fst (isStorageAvailable s')"
  shows "r = Inr True \<and>
         (\<exists>merged.
            fst (getAnalyses (with_capacity C) s') = JArr (xs[j := JObj merged]) \<and>
            (\<forall>k. map_of merged k = (if k \<in> fst ` set u then map_of u k else map_of old k)) \<and>
            fst ` set merged = fst ` set old \<union> fst ` set u)"
proof -
  let ?self = "with_capacity C"
  have k: "analysesKey ?self \<noteq> ''__storage_test__''"
    by (simp add: with_capacity_def new_SoilStorage_def)
  have av: "fst (isStorageAvailable s)"
  proof (rule ccontr)
    assume "\<not> fst (isStorageAvailable s)"
    then have "fst (getAnalyses ?self s) = JArr []" using getAnalyses_fst[OF k, of s] by simp
    with assms(1,2) show False by simp
  qed
  have st: "stored ?self s = JArr xs" using getAnalyses_fst[OF k, of s] av assms(1) by simp
  have r: "r = Inr True"
    using update_outcomes[of ?self s i u] assms(7,8) av by auto
  from update_success[OF k] assms(7) r obtain xs' j' where
    st0: "stored ?self s = JArr xs'"
    and j': "findIndex_js (id_is i) xs' = Inr (Some j')"
    and st': "stored ?self s' = JArr (xs'[j' := JObj (spread2 (xs' ! j') (JObj u))])"
    by blast
  have xs': "xs' = xs" using st st0 by simp
  have "id_is i (xs ! j) = Inr True" using assms(3,4) by (simp add: id_is_def)
  from findIndex_js_first[OF assms(2) this assms(5)] j' xs' have jj: "j' = j" by simp
  let ?m = "spread2 (JObj old) (JObj u)"
  have "fst (getAnalyses ?self s') = JArr (xs[j := JObj ?m])"
    using getAnalyses_fst[OF k, of s'] assms(9) st' xs' jj assms(3) by simp
  moreover have "\<forall>k. map_of ?m k = (if k \<in> fst ` set u then map_of u k else map_of old k)"
    using spread2_lookup[OF assms(6)] by blast
  moreover have "fst ` set ?m = fst ` set old \<union> fst ` set u"
    by (simp add: spread2_def keys_assign_all)
  ultimately show ?thesis using r by blast
qed

lemma kept_stored:
  "fst (getAnalyses (with_capacity 50) (storage_of (JArr kept_records))) = JArr kept_records"
  by (simp add: getAnalyses_def isStorageAvailable_def setItem_def removeItem_def getItem_def
        storage_of_def with_capacity_def new_SoilStorage_def)

lemma kept_updated:
  "fst (updateAnalysis (with_capacity 50) (storage_of (JArr kept_records)) (JStr ''B'')
          [(''videoUrl'', JStr ''x''), (''analysis'', JObj [(''pH'', JNum 7)])]) = Inr True"
  by (simp add: updateAnalysis_def getAnalyses_def isStorageAvailable_def setItem_def removeItem_def
        getItem_def storage_of_def with_capacity_def new_SoilStorage_def kept_records_def id_is_def)

theorem update_replaces_named_fields_witness:
  "fst (getAnalyses (with_capacity 50) (storage_of (JArr kept_records))) = JArr kept_records
   \<and> fst (updateAnalysis (with_capacity 50) (storage_of (JArr kept_records)) (JStr ''B'')
            [(''videoUrl'', JStr ''x''), (''analysis'', JObj [(''pH'', JNum 7)])]) = Inr True
   \<and> (\<exists>merged.
        fst (getAnalyses (with_capacity 50)
               (snd (updateAnalysis (with_capacity 50) (storage_of (JArr kept_records)) (JStr ''B'')
                       [(''videoUrl'', JStr ''x''), (''analysis'', JObj [(''pH'', JNum 7)])])))
          = JArr [JObj [(''id'', JStr ''C''), (''story'', JStr ''clay'')], JObj merged,
                  JObj [(''id'', JStr ''A''), (''story'', JStr ''sand'')]]
        \<and> map_of merged ''id'' = Some (JStr ''B'')
        \<and> map_of merged ''story'' = Some (JStr ''loam'')
        \<and> map_of merged ''videoUrl'' = Some (JStr ''x'')
        \<and> map_of merged ''analysis'' = Some (JObj [(''pH'', JNum 7)]))"
proof -
  let ?u = "[(''videoUrl'', JStr ''x''), (''analysis'', JObj [(''pH'', JNum 7)])]"
  let ?old = "[(''id'', JStr ''B''), (''story'', JStr ''loam''),
            (''analysis'', JObj [(''pH'', JNum 6), (''OM'', JNum 2)])]"
  let ?run = "updateAnalysis (with_capacity 50) (storage_of (JArr kept_records)) (JStr ''B'') ?u"
  have h2: "(1::nat) < length kept_records" by (simp add: kept_records_def)
  have h3: "kept_records ! 1 = JObj ?old" by (simp add: kept_records_def)
  have h4: "strict_equals (map_of ?old ''id'') (JStr ''B'')" by simp
  have h5: "\<forall>k<(1::nat). id_is (JStr ''B'') (kept_records ! k) = Inr False"
    by (simp add: kept_records_def id_is_def)
  have h6: "distinct (map fst ?u)" by simp
  have h7: "?run = (fst ?run, snd ?run)" by simp
  have h8: "fst ?run \<noteq> Inl (Error ''Failed to update analysis'')" by (simp add: kept_updated)
  have h9: "fst (isStorageAvailable (snd ?run))"
    by (simp add: updateAnalysis_def getAnalyses_def isStorageAvailable_def setItem_def removeItem_def
        getItem_def storage_of_def with_capacity_def new_SoilStorage_def kept_records_def id_is_def)
  from update_replaces_named_fields[OF kept_stored h2 h3 h4 h5 h6 h7 h8 h9]
  obtain merged where
    m: "fst (getAnalyses (with_capacity 50) (snd ?run)) = JArr (kept_records[1 := JObj merged])"
       "\<forall>k. map_of merged k = (if k \<in> fst ` set ?u then map_of ?u k else map_of ?old k)"
    by blast
  have l: "kept_records[1 := JObj merged]
        = [JObj [(''id'', JStr ''C''), (''story'', JStr ''clay'')], JObj merged,
                  JObj [(''id'', JStr ''A''), (''story'', JStr ''sand'')]]"
    by (simp add: kept_records_def)
  from m(2) have "map_of merged ''id'' = Some (JStr ''B'')"
     "map_of merged ''story'' = Some (JStr ''loam'')"
     "map_of merged ''videoUrl'' = Some (JStr ''x'')"
     "map_of merged ''analysis'' = Some (JObj [(''pH'', JNum 7)])"
    by simp_all
  with m(1) l kept_stored kept_updated show ?thesis by auto
qed

section \<open>Deleting a record\<close>

lemma filter_js_Inr:
  "filter_js p xs = Inr ys \<Longrightarrow> ys = filter (\<lambda>a. p a = Inr True) xs \<and> (\<forall>a\<in>set xs. \<exists>b. p a = Inr b)"
proof (induction xs arbitrary: ys)
  case Nil
  then show ?case by simp
next
  case (Cons x xs)
  from Cons.prems obtain b zs where b: "p x = Inr b" and zs: "filter_js p xs = Inr zs"
    and ys: "ys = (if b then x # zs else zs)"
    by (auto split: sum.splits)
  from Cons.IH[OF zs] b ys show ?case by auto
qed

lemma filter_js_all:
  "\<forall>a\<in>set xs. p a = Inr True \<Longrightarrow> filter_js p xs = Inr xs"
  by (induction xs) auto

lemma delete_outcomes:
  "fst (deleteAnalysis self s i) = Inr True
   \<or> fst (deleteAnalysis self s i) = Inl (Error ''Failed to delete analysis'')
   \<or> (fst (deleteAnalysis self s i) = Inl (Error ''LocalStorage is not available'')
       \<and> \<not> fst (isStorageAvailable s))"
proof -
  obtain a s1 where p: "isStorageAvailable s = (a, s1)" by (cases "isStorageAvailable s")
  obtain v s2 where g: "getAnalyses self s1 = (v, s2)" by (cases "getAnalyses self s1")
  show ?thesis
    by (cases a; cases v)
       (auto simp: deleteAnalysis_def p g split: sum.splits option.splits)
qed

lemma delete_success:
  assumes k: "analysesKey self \<noteq> ''__storage_test__''"
    and ok: "deleteAnalysis self s i = (Inr b, s')"
  shows "\<exists>xs ys. stored self s = JArr xs \<and> fst (isStorageAvailable s) \<and>
           filter_js (id_is_not i) xs = Inr ys \<and> stored self s' = JArr ys"
proof -
  obtain a s1 where p: "isStorageAvailable s = (a, s1)" by (cases "isStorageAvailable s")
  obtain v s2 where g: "getAnalyses self s1 = (v, s2)" by (cases "getAnalyses self s1")
  from ok p have a: a by (auto simp: deleteAnalysis_def split: bool.splits)
  from ok p g a obtain xs where v: "v = JArr xs"
    by (cases v) (auto simp: deleteAnalysis_def)
  from ok p g a v obtain ys where f: "filter_js (id_is_not i) xs = Inr ys"
    by (cases "filter_js (id_is_not i) xs") (auto simp: deleteAnalysis_def)
  from ok p g a v f obtain s3 where w: "setItem s2 (analysesKey self) (Text (JArr ys)) = Inr s3"
    and s': "s' = s3"
    by (auto simp: deleteAnalysis_def split: sum.splits)
  have s1: "s1 = snd (isStorageAvailable s)" using p by simp
  have av: "fst (isStorageAvailable s)" using a p by simp
  then have "fst (isStorageAvailable s1)" by (simp add: s1 probe_again)
  with g k have "v = stored self s1" using getAnalyses_fst[OF k, of s1] by simp
  then have st: "stored self s = JArr xs" using v k by (simp add: s1 probe_stored)
  from w have "items s3 (analysesKey self) = Some (Text (JArr ys))"
    by (auto simp: setItem_def Let_def split: if_splits)
  then have "stored self s' = JArr ys" by (simp add: stored_def s')
  with st av f show ?thesis by blast
qed

text \<open>
  C6, as the code has it. For an id that no stored record has, \<^verbatim>\<open>deleteAnalysis\<close>
  reports no missing record: with the medium available and the rewrite not refused,
  it returns true, and the collection read afterwards is the one from before.
\<close>

theorem delete_absent_id_succeeds:
  assumes "fst (isStorageAvailable s)"
    and "fst (getAnalyses (with_capacity C) s) = JArr xs"
    and "\<forall>a\<in>set xs. id_is i a = Inr False"
    and "deleteAnalysis (with_capacity C) s i = (r, s')"
    and "r \<noteq> Inl (Error ''Failed to delete analysis'')"
    and "fst (isStorageAvailable s')"
  shows "r = Inr True \<and> fst (getAnalyses (with_capacity C) s') = JArr xs"
proof -
  let ?self = "with_capacity C"
  have k: "analysesKey ?self \<noteq> ''__storage_test__''"
    by (simp add: with_capacity_def new_SoilStorage_def)
  have st: "stored ?self s = JArr xs" using getAnalyses_fst[OF k, of s] assms(1,2) by simp
  have r: "r = Inr True" using delete_outcomes[of ?self s i] assms(1,4,5) by auto
  from delete_success[OF k] assms(4) r obtain xs' ys where
    st0: "stored ?self s = JArr xs'" and f: "filter_js (id_is_not i) xs' = Inr ys"
    and st': "stored ?self s' = JArr ys" by blast
  have xs': "xs' = xs" using st st0 by simp
  have "\<forall>a\<in>set xs. id_is_not i a = Inr True"
    using assms(3) by (auto simp: id_is_def id_is_not_def split: sum.splits)
  from filter_js_all[OF this] f xs' have "ys = xs" by simp
  then show ?thesis using r st' getAnalyses_fst[OF k, of s'] assms(6) by simp
qed

lemma absent_deleted:
  "fst (deleteAnalysis (with_capacity 50) (storage_of (JArr kept_records)) (JStr ''Z'')) = Inr True"
  by (simp add: deleteAnalysis_def getAnalyses_def isStorageAvailable_def setItem_def removeItem_def
        getItem_def storage_of_def with_capacity_def new_SoilStorage_def kept_records_def id_is_not_def)

theorem delete_absent_id_succeeds_witness:
  "fst (isStorageAvailable (storage_of (JArr kept_records)))
   \<and> map (id_is (JStr ''Z'')) kept_records = [Inr False, Inr False, Inr False]
   \<and> fst (deleteAnalysis (with_capacity 50) (storage_of (JArr kept_records)) (JStr ''Z'')) = Inr True
   \<and> fst (getAnalyses (with_capacity 50)
            (snd (deleteAnalysis (with_capacity 50) (storage_of (JArr kept_records)) (JStr ''Z''))))
       = JArr kept_records"
proof -
  let ?run = "deleteAnalysis (with_capacity 50) (storage_of (JArr kept_records)) (JStr ''Z'')"
  have h1: "fst (isStorageAvailable (storage_of (JArr kept_records)))"
    by (simp add: isStorageAvailable_def setItem_def storage_of_def)
  have h3: "\<forall>a\<in>set kept_records. id_is (JStr ''Z'') a = Inr False"
    by (simp add: kept_records_def id_is_def)
  have h4: "?run = (fst ?run, snd ?run)" by simp
  have h5: "fst ?run \<noteq> Inl (Error ''Failed to delete analysis'')" by (simp add: absent_deleted)
  have h6: "fst (isStorageAvailable (snd ?run))"
    by (simp add: deleteAnalysis_def getAnalyses_def isStorageAvailable_def setItem_def removeItem_def
        getItem_def storage_of_def with_capacity_def new_SoilStorage_def kept_records_def id_is_not_def)
  have m: "map (id_is (JStr ''Z'')) kept_records = [Inr False, Inr False, Inr False]"
    by (simp add: kept_records_def id_is_def)
  show ?thesis
    using delete_absent_id_succeeds[OF h1 kept_stored h3 h4 h5 h6] h1 m by simp
qed

text \<open>
  C6 as stated fails: the id \<^verbatim>\<open>Z\<close> is not in the collection (\<^verbatim>\<open>getAnalysis\<close> finds
  nothing), and deleting it returns true instead of an error.
\<close>

theorem delete_absent_id_counterexample:
  "fst (getAnalysis new_SoilStorage (storage_of (JArr kept_records)) (JStr ''Z'')) = Inr None
   \<and> fst (deleteAnalysis new_SoilStorage (storage_of (JArr kept_records)) (JStr ''Z'')) = Inr True"
  by (simp add: getAnalysis_def deleteAnalysis_def getAnalyses_def isStorageAvailable_def setItem_def
        removeItem_def getItem_def storage_of_def new_SoilStorage_def kept_records_def
        id_is_not_def id_is_def)

section \<open>Identity of records\<close>

lemma map_of_assign_all_other:
  "k \<notin> fst ` set src \<Longrightarrow> map_of (assign_all t src) k = map_of t k"
proof (induction src arbitrary: t)
  case Nil
  then show ?case by (simp add: assign_all_def)
next
  case (Cons p src)
  obtain k0 v0 where p: "p = (k0, v0)" by (cases p)
  have step: "assign_all t (p # src) = assign_all (set_prop t k0 v0) src"
    by (simp add: assign_all_def p)
  from Cons.prems p have "k \<notin> fst ` set src" "k \<noteq> k0" by auto
  with Cons.IH[of "set_prop t k0 v0"] show ?case
    unfolding step by (simp add: map_of_set_prop)
qed

lemma stamped_id:
  "map_of (stamped c a) ''id'' =
     (if falsy (map_of a ''id'') then Some (JStr (generateId c)) else map_of a ''id'')"
  by (simp add: stamped_def with_timestamp_def with_id_def map_of_set_prop)

lemma getAnalyses_cases:
  assumes "analysesKey self \<noteq> ''__storage_test__''"
  shows "fst (getAnalyses self s) = stored self s \<or> fst (getAnalyses self s) = JArr []"
  using getAnalyses_fst[OF assms, of s] by (cases "fst (isStorageAvailable s)") simp_all

lemma ids_unique_Nil: "ids_unique []"
  by (simp add: ids_unique_def)

lemma ids_unique_save:
  "ids_unique xs \<Longrightarrow> id_of a \<notin> set (map id_of xs) \<Longrightarrow> ids_unique (take c (a # xs))"
proof -
  assume "ids_unique xs" "id_of a \<notin> set (map id_of xs)"
  then have "distinct (map id_of (a # xs))" by (simp add: ids_unique_def)
  then have "distinct (take c (map id_of (a # xs)))" by (rule distinct_take)
  then show ?thesis by (simp only: ids_unique_def take_map)
qed

lemma ids_unique_filter: "ids_unique xs \<Longrightarrow> ids_unique (filter P xs)"
  by (simp add: ids_unique_def distinct_map_filter)

lemma ids_unique_update:
  assumes "ids_unique xs" and "id_of m = id_of (xs ! j)"
  shows "ids_unique (xs[j := m])"
proof -
  have "map id_of (xs[j := m]) = (map id_of xs)[j := id_of (xs ! j)]"
    by (simp add: map_update assms(2))
  also have "\<dots> = map id_of xs"
    by (cases "j < length xs") (simp_all add: list_update_same_conv list_update_beyond)
  finally show ?thesis using assms(1) by (simp add: ids_unique_def)
qed

text \<open>
  C5, as the code has it. When the ids read from the collection are pairwise distinct,
  they are so again after a save whose record, as completed, has an id that no stored
  record has, after an update whose fields do not name \<^verbatim>\<open>id\<close>, after a delete and
  after a clear. A save gives the record a generated id exactly when its own id is
  missing or falsy, and keeps the id otherwise.
\<close>

theorem unique_ids_preserved:
  assumes "fst (getAnalyses (with_capacity C) s) = JArr xs" and "ids_unique xs"
  shows "(saveAnalysis (with_capacity C) c s a = (Inr r, s1) \<longrightarrow>
            map_of (stamped c a) ''id'' \<notin> set (map id_of xs) \<longrightarrow>
            (\<exists>ys. fst (getAnalyses (with_capacity C) s1) = JArr ys \<and> ids_unique ys))
       \<and> (updateAnalysis (with_capacity C) s i u = (Inr b, s2) \<longrightarrow> ''id'' \<notin> fst ` set u \<longrightarrow>
            (\<exists>ys. fst (getAnalyses (with_capacity C) s2) = JArr ys \<and> ids_unique ys))
       \<and> (deleteAnalysis (with_capacity C) s i = (Inr b', s3) \<longrightarrow>
            (\<exists>ys. fst (getAnalyses (with_capacity C) s3) = JArr ys \<and> ids_unique ys))
       \<and> (clearAnalyses (with_capacity C) s = (Inr b'', s4) \<longrightarrow>
            fst (getAnalyses (with_capacity C) s4) = JArr [])
       \<and> map_of (stamped c a) ''id'' =
            (if falsy (map_of a ''id'') then Some (JStr (generateId c)) else map_of a ''id'')"
proof -
  let ?self = "with_capacity C"
  have k: "analysesKey ?self \<noteq> ''__storage_test__''"
    by (simp add: with_capacity_def new_SoilStorage_def)
  have read: "\<And>t ys. stored ?self t = JArr ys \<Longrightarrow> ids_unique ys \<Longrightarrow>
                \<exists>zs. fst (getAnalyses ?self t) = JArr zs \<and> ids_unique zs"
    using getAnalyses_cases[OF k] ids_unique_Nil by metis
  have before: "\<And>ys. fst (isStorageAvailable s) \<Longrightarrow> stored ?self s = JArr ys \<Longrightarrow> ys = xs"
    using getAnalyses_fst[OF k, of s] assms(1) by simp
  have save: "\<exists>ys. fst (getAnalyses ?self s1) = JArr ys \<and> ids_unique ys"
    if sv: "saveAnalysis ?self c s a = (Inr r, s1)"
      and new: "map_of (stamped c a) ''id'' \<notin> set (map id_of xs)"
  proof -
    from save_success[OF k sv] obtain ys where ys: "stored ?self s = JArr ys"
      and av: "fst (isStorageAvailable s)"
      and st: "stored ?self s1 = JArr (take (maxStorageSize ?self) (JObj (stamped c a) # ys))"
      by blast
    have "ys = xs" using before[OF av ys] .
    moreover have "id_of (JObj (stamped c a)) = map_of (stamped c a) ''id''" by (simp add: id_of_def)
    ultimately have "ids_unique (take (maxStorageSize ?self) (JObj (stamped c a) # ys))"
      using ids_unique_save[OF assms(2), of "JObj (stamped c a)"] new by simp
    with read[OF st] show ?thesis by simp
  qed
  have update: "\<exists>ys. fst (getAnalyses ?self s2) = JArr ys \<and> ids_unique ys"
    if up: "updateAnalysis ?self s i u = (Inr b, s2)" and nid: "''id'' \<notin> fst ` set u"
  proof -
    from update_success[OF k up] obtain ys j where ys: "stored ?self s = JArr ys"
      and av: "fst (isStorageAvailable s)"
      and j: "findIndex_js (id_is i) ys = Inr (Some j)"
      and st: "stored ?self s2 = JArr (ys[j := JObj (spread2 (ys ! j) (JObj u))])"
      by blast
    have e: "ys = xs" using before[OF av ys] .
    from findIndex_js_Some[OF j] have "id_is i (ys ! j) = Inr True" by simp
    from id_is_True[OF this] obtain old where old: "ys ! j = JObj old" by blast
    have "id_of (JObj (spread2 (ys ! j) (JObj u))) = id_of (ys ! j)"
      using map_of_assign_all_other[OF nid, of old] by (simp add: old id_of_def spread2_def)
    from ids_unique_update[OF _ this] assms(2) e
    have "ids_unique (ys[j := JObj (spread2 (ys ! j) (JObj u))])" by simp
    with read[OF st] show ?thesis by simp
  qed
  have delete: "\<exists>ys. fst (getAnalyses ?self s3) = JArr ys \<and> ids_unique ys"
    if del: "deleteAnalysis ?self s i = (Inr b', s3)"
  proof -
    from delete_success[OF k del] obtain ys zs where ys: "stored ?self s = JArr ys"
      and av: "fst (isStorageAvailable s)"
      and f: "filter_js (id_is_not i) ys = Inr zs"
      and st: "stored ?self s3 = JArr zs"
      by blast
    have e: "ys = xs" using before[OF av ys] .
    from filter_js_Inr[OF f] have "zs = filter (\<lambda>a. id_is_not i a = Inr True) ys" by simp
    then have "ids_unique zs" using ids_unique_filter[OF assms(2)] e by simp
    with read[OF st] show ?thesis by simp
  qed
  have clear: "fst (getAnalyses ?self s4) = JArr []"
    if cl: "clearAnalyses ?self s = (Inr b'', s4)"
  proof -
    from cl have "items s4 (analysesKey ?self) = None"
      by (cases "isStorageAvailable s")
         (auto simp: clearAnalyses_def removeItem_def split: bool.splits)
    then have "stored ?self s4 = JArr []" by (simp add: stored_def)
    then show ?thesis using getAnalyses_cases[OF k, of s4] by auto
  qed
  from save update delete clear stamped_id show ?thesis by blast
qed

lemma kept_unique: "ids_unique kept_records"
  by (simp add: ids_unique_def id_of_def kept_records_def)

theorem unique_ids_preserved_witness:
  "fst (getAnalyses (with_capacity 50) (storage_of (JArr kept_records))) = JArr kept_records
   \<and> ids_unique kept_records
   \<and> fst (saveAnalysis (with_capacity 50) noon (storage_of (JArr kept_records)) [(''story'', JStr ''silt'')])
       = Inr (Some (JStr ''analysis_1700000000000_k3j9x2m1p''))
   \<and> Some (JStr ''analysis_1700000000000_k3j9x2m1p'') \<notin> set (map id_of kept_records)
   \<and> (\<exists>ys. fst (getAnalyses (with_capacity 50)
                  (snd (saveAnalysis (with_capacity 50) noon (storage_of (JArr kept_records))
                          [(''story'', JStr ''silt'')]))) = JArr ys \<and> ids_unique ys)
   \<and> fst (updateAnalysis (with_capacity 50) (storage_of (JArr kept_records)) (JStr ''B'')
            [(''videoUrl'', JStr ''x'')]) = Inr True
   \<and> ''id'' \<notin> fst ` set [(''videoUrl'', JStr ''x'')]
   \<and> (\<exists>ys. fst (getAnalyses (with_capacity 50)
                  (snd (updateAnalysis (with_capacity 50) (storage_of (JArr kept_records)) (JStr ''B'')
                          [(''videoUrl'', JStr ''x'')]))) = JArr ys \<and> ids_unique ys)
   \<and> fst (deleteAnalysis (with_capacity 50) (storage_of (JArr kept_records)) (JStr ''B'')) = Inr True
   \<and> (\<exists>ys. fst (getAnalyses (with_capacity 50)
                  (snd (deleteAnalysis (with_capacity 50) (storage_of (JArr kept_records)) (JStr ''B''))))
               = JArr ys \<and> ids_unique ys)
   \<and> fst (clearAnalyses (with_capacity 50) (storage_of (JArr kept_records))) = Inr True
   \<and> fst (getAnalyses (with_capacity 50)
            (snd (clearAnalyses (with_capacity 50) (storage_of (JArr kept_records))))) = JArr []"
proof -
  let ?self = "with_capacity 50"
  let ?s = "storage_of (JArr kept_records)"
  let ?a = "[(''story'', JStr ''silt'')]"
  let ?u = "[(''videoUrl'', JStr ''x'')]"
  let ?sv = "saveAnalysis ?self noon ?s ?a"
  let ?up = "updateAnalysis ?self ?s (JStr ''B'') ?u"
  let ?de = "deleteAnalysis ?self ?s (JStr ''B'')"
  let ?cl = "clearAnalyses ?self ?s"
  have sid: "map_of (stamped noon ?a) ''id'' = Some (JStr ''analysis_1700000000000_k3j9x2m1p'')"
    by (simp add: stamped_def with_id_def with_timestamp_def generateId_noon)
  have sv: "fst ?sv = Inr (Some (JStr ''analysis_1700000000000_k3j9x2m1p''))"
    by (simp add: saveAnalysis_def getAnalyses_def isStorageAvailable_def setItem_def removeItem_def
        getItem_def storage_of_def with_capacity_def new_SoilStorage_def sid Let_def)
  have up: "fst ?up = Inr True"
    by (simp add: updateAnalysis_def getAnalyses_def isStorageAvailable_def setItem_def removeItem_def
        getItem_def storage_of_def with_capacity_def new_SoilStorage_def kept_records_def id_is_def)
  have de: "fst ?de = Inr True"
    by (simp add: deleteAnalysis_def getAnalyses_def isStorageAvailable_def setItem_def removeItem_def
        getItem_def storage_of_def with_capacity_def new_SoilStorage_def kept_records_def id_is_not_def)
  have cl: "fst ?cl = Inr True"
    by (simp add: clearAnalyses_def isStorageAvailable_def setItem_def storage_of_def)
  have new: "Some (JStr ''analysis_1700000000000_k3j9x2m1p'') \<notin> set (map id_of kept_records)"
    by (simp add: kept_records_def id_of_def)
  have nid: "''id'' \<notin> fst ` set ?u" by simp
  have e1: "?sv = (Inr (Some (JStr ''analysis_1700000000000_k3j9x2m1p'')), snd ?sv)"
    using sv by (metis prod.collapse)
  have e2: "?up = (Inr True, snd ?up)" using up by (metis prod.collapse)
  have e3: "?de = (Inr True, snd ?de)" using de by (metis prod.collapse)
  have e4: "?cl = (Inr True, snd ?cl)" using cl by (metis prod.collapse)
  from unique_ids_preserved[OF kept_stored kept_unique,
      of noon ?a "Some (JStr ''analysis_1700000000000_k3j9x2m1p'')" "snd ?sv" "JStr ''B''" ?u True
         "snd ?up" True "snd ?de" True "snd ?cl"]
    e1 e2 e3 e4 new nid sid
  have "(\<exists>ys. fst (getAnalyses ?self (snd ?sv)) = JArr ys \<and> ids_unique ys)
      \<and> (\<exists>ys. fst (getAnalyses ?self (snd ?up)) = JArr ys \<and> ids_unique ys)
      \<and> (\<exists>ys. fst (getAnalyses ?self (snd ?de)) = JArr ys \<and> ids_unique ys)
      \<and> fst (getAnalyses ?self (snd ?cl)) = JArr []"
    by simp
  then show ?thesis using kept_stored kept_unique sv up de cl new nid by simp
qed

lemma twice_saved:
  "fst (getAnalyses new_SoilStorage (snd (save_all new_SoilStorage open_storage same_id_twice)))
     = JArr [JObj [(''id'', JStr ''A''), (''story'', JStr ''second''),
                   (''timestamp'', JStr ''2023-11-14T22:13:20.000Z'')],
             JObj [(''id'', JStr ''A''), (''story'', JStr ''first''),
                   (''timestamp'', JStr ''2023-11-14T22:13:20.000Z'')]]"
  by (simp add: same_id_twice_def open_storage_def new_SoilStorage_def
      saveAnalysis_def isStorageAvailable_def setItem_def removeItem_def getAnalyses_def getItem_def
      updateStorageInfo_def Let_def stamped_def with_id_def with_timestamp_def noon_def)

text \<open>
  C5 as stated fails: \<^verbatim>\<open>saveAnalysis\<close> does not look for the id among the stored
  records, so two saves of records with the id \<^verbatim>\<open>A\<close> leave two records with that id.
\<close>

theorem unique_ids_counterexample:
  "fst (save_all new_SoilStorage open_storage same_id_twice) = Inr ()
   \<and> fst (getAnalyses new_SoilStorage (snd (save_all new_SoilStorage open_storage same_id_twice)))
       = JArr [JObj [(''id'', JStr ''A''), (''story'', JStr ''second''),
                     (''timestamp'', JStr ''2023-11-14T22:13:20.000Z'')],
               JObj [(''id'', JStr ''A''), (''story'', JStr ''first''),
                     (''timestamp'', JStr ''2023-11-14T22:13:20.000Z'')]]
   \<and> \<not> ids_unique [JObj [(''id'', JStr ''A''), (''story'', JStr ''second''),
                           (''timestamp'', JStr ''2023-11-14T22:13:20.000Z'')],
                     JObj [(''id'', JStr ''A''), (''story'', JStr ''first''),
                           (''timestamp'', JStr ''2023-11-14T22:13:20.000Z'')]]"
proof -
  have "fst (save_all new_SoilStorage open_storage same_id_twice) = Inr ()"
    by (simp add: same_id_twice_def open_storage_def new_SoilStorage_def
      saveAnalysis_def isStorageAvailable_def setItem_def removeItem_def getAnalyses_def getItem_def
      updateStorageInfo_def Let_def)
  moreover have "\<not> ids_unique [JObj [(''id'', JStr ''A''), (''story'', JStr ''second''),
                           (''timestamp'', JStr ''2023-11-14T22:13:20.000Z'')],
                     JObj [(''id'', JStr ''A''), (''story'', JStr ''first''),
                           (''timestamp'', JStr ''2023-11-14T22:13:20.000Z'')]]"
    by (simp add: ids_unique_def id_of_def)
  ultimately show ?thesis using twice_saved by simp
qed

section \<open>Search\<close>

lemma includes_js_sublist: "includes_js s t = sublist t s"
  by (induction s) (simp_all add: sublist_Cons_right)

lemma filter_js_total:
  "\<forall>a\<in>set xs. p a = Inr (P a) \<Longrightarrow> filter_js p xs = Inr (filter P xs)"
  by (induction xs) auto

lemma search_match_typed:
  assumes "typed_record a" and "trim rt q \<noteq> []"
    and comm: "\<forall>t. trim rt (toLowerCase rt t) = toLowerCase rt (trim rt t)"
    and empty: "\<forall>t. (toLowerCase rt t = []) = (t = [])"
    and nums: "\<forall>x. toLowerCase rt (numberText rt x) = numberText rt x"
  shows "search_match rt (trim rt (toLowerCase rt q)) a = Inr (spec_search_match rt (trim rt q) a)"
proof -
  let ?needle = "toLowerCase rt (trim rt q)"
  have ne: "?needle \<noteq> []" using assms(2) empty by simp
  have e: "toLowerCase rt [] = []" using empty by simp
  have text_case: "\<And>f. text_or_missing f \<Longrightarrow>
       lower_includes (toLowerCase rt) f ?needle
         = Inr (case f of Some (JStr t) \<Rightarrow> ci_substring rt (trim rt q) t | _ \<Rightarrow> False)"
    subgoal for f
      using ne e
      by (cases f rule: text_or_missing.cases)
         (auto simp: includes_js_sublist ci_substring_def)
    done
  have num: "\<And>f. number_or_missing f \<Longrightarrow>
       coordinate_includes (numberText rt) f ?needle
         = (case f of Some (JNum x) \<Rightarrow> ci_substring rt (trim rt q) (numberText rt x) | _ \<Rightarrow> False)"
    subgoal for f
      using nums
      by (cases f rule: number_or_missing.cases)
         (auto simp: includes_js_sublist ci_substring_def)
    done
  have loc: "\<And>f. location_or_missing f \<Longrightarrow>
       location_includes (numberText rt) f ?needle
         = (case f of
              Some (JObj l) \<Rightarrow>
                (case map_of l ''lat'' of
                   Some (JNum x) \<Rightarrow> ci_substring rt (trim rt q) (numberText rt x) | _ \<Rightarrow> False)
                \<or> (case map_of l ''lon'' of
                     Some (JNum x) \<Rightarrow> ci_substring rt (trim rt q) (numberText rt x) | _ \<Rightarrow> False)
            | _ \<Rightarrow> False)"
    subgoal for f
      by (cases f rule: location_or_missing.cases)
         (simp_all add: location_includes_def num)
    done
  from assms(1) obtain ps where a: "a = JObj ps"
    and s: "text_or_missing (map_of ps ''story'')"
    and t: "text_or_missing (map_of ps ''timestamp'')"
    and l: "location_or_missing (map_of ps ''location'')"
    by (cases a) auto
  have c: "trim rt (toLowerCase rt q) = ?needle" using comm by simp
  show ?thesis
    unfolding c
    by (simp add: search_match_def a text_case[OF s] text_case[OF t] loc[OF l] spec_search_match_def
          split: bool.splits)
qed

text \<open>
  C8, as the code has it. A query that is empty or blank returns the whole list.
  Otherwise the query is trimmed first, and \<^verbatim>\<open>searchAnalyses\<close> returns, in their order,
  exactly the records for which the trimmed query is a substring, case ignored, of the
  story, of the timestamp, or of the text of a coordinate of the location. This is for
  records of the data model and every runtime in which trimming and lower-casing a
  text can be done in either order, only the empty text has an empty lower case, and
  the text of a number has no capitals.
\<close>

theorem search_matches_trimmed_query:
  assumes "fst (getAnalyses self s) = JArr xs"
    and "\<forall>a\<in>set xs. typed_record a"
    and "\<forall>t. trim rt (toLowerCase rt t) = toLowerCase rt (trim rt t)"
    and "\<forall>t. (toLowerCase rt t = []) = (t = [])"
    and "\<forall>x. toLowerCase rt (numberText rt x) = numberText rt x"
  shows "fst (searchAnalyses rt self s q) =
           Inr (JArr (if q = [] \<or> trim rt q = [] then xs
                      else filter (spec_search_match rt (trim rt q)) xs))"
proof (cases "q = [] \<or> trim rt q = []")
  case True
  obtain s1 where g: "getAnalyses self s = (JArr xs, s1)"
    using assms(1) by (cases "getAnalyses self s") simp
  from True show ?thesis by (auto simp: searchAnalyses_def g)
next
  case False
  obtain s1 where g: "getAnalyses self s = (JArr xs, s1)"
    using assms(1) by (cases "getAnalyses self s") simp
  from False have q: "q \<noteq> []" and tq: "trim rt q \<noteq> []" by simp_all
  have "\<forall>a\<in>set xs. search_match rt (trim rt (toLowerCase rt q)) a
          = Inr (spec_search_match rt (trim rt q) a)"
    using search_match_typed[OF _ tq assms(3) assms(4) assms(5)] assms(2) by blast
  from filter_js_total[OF this] q tq show ?thesis
    by (simp add: searchAnalyses_def g Let_def)
qed

lemma ascii_lower_char_cases:
  "ascii_lower_char c = c \<or> ascii_lower_char c \<in> set ''abcdefghijklmnopqrstuvwxyz''"
  by (simp add: ascii_lower_char_def)

lemma ascii_space_lower: "ascii_space (ascii_lower_char c) = ascii_space c"
proof (cases "ascii_lower_char c = c")
  case True
  then show ?thesis by simp
next
  case False
  then have l: "ascii_lower_char c \<in> set ''abcdefghijklmnopqrstuvwxyz''"
    using ascii_lower_char_cases[of c] by simp
  from False have "c \<in> set ''ABCDEFGHIJKLMNOPQRSTUVWXYZ''"
    by (auto simp: ascii_lower_char_def split: if_splits)
  then have "\<not> ascii_space c" by (auto simp: ascii_space_def)
  moreover from l have "\<not> ascii_space (ascii_lower_char c)" by (auto simp: ascii_space_def)
  ultimately show ?thesis by simp
qed

lemma ascii_trim_lower: "ascii_trim (ascii_toLowerCase s) = ascii_toLowerCase (ascii_trim s)"
proof -
  have c: "ascii_space \<circ> ascii_lower_char = ascii_space"
    by (rule ext) (simp add: ascii_space_lower)
  have dw: "\<And>xs. dropWhile ascii_space (map ascii_lower_char xs)
                  = map ascii_lower_char (dropWhile ascii_space xs)"
    by (simp add: dropWhile_map c)
  show ?thesis
    by (simp only: ascii_trim_def ascii_toLowerCase_def dw rev_map)
qed

lemma ascii_strings_commute:
  "\<forall>t. trim ascii_strings (toLowerCase ascii_strings t)
        = toLowerCase ascii_strings (trim ascii_strings t)"
  by (simp add: ascii_strings_def ascii_trim_lower)

lemma ascii_strings_empty: "\<forall>t. (toLowerCase ascii_strings t = []) = (t = [])"
  by (simp add: ascii_strings_def ascii_toLowerCase_def)

lemma ascii_strings_numbers:
  "\<forall>x. toLowerCase ascii_strings (numberText ascii_strings x) = numberText ascii_strings x"
  by (simp add: ascii_strings_def sample_number_text_def ascii_toLowerCase_def ascii_lower_char_def)

lemma notes_stored:
  "fst (getAnalyses new_SoilStorage (storage_of (JArr soil_notes))) = JArr soil_notes"
  by (simp add: getAnalyses_def isStorageAvailable_def setItem_def removeItem_def getItem_def
        storage_of_def new_SoilStorage_def)

lemma notes_typed: "map typed_record soil_notes = [True, True]"
  by (simp add: soil_notes_def sandy_note_def clay_note_def)

lemma notes_matching_soil:
  "filter (spec_search_match ascii_strings ''Soil'') soil_notes = [sandy_note]"
  by (simp add: soil_notes_def sandy_note_def clay_note_def spec_search_match_def ci_substring_def
        includes_js_sublist[symmetric] ascii_strings_def ascii_toLowerCase_def ascii_lower_char_def
        sample_number_text_def)

theorem search_matches_trimmed_query_witness:
  "fst (getAnalyses new_SoilStorage (storage_of (JArr soil_notes))) = JArr soil_notes
   \<and> map typed_record soil_notes = [True, True]
   \<and> (\<forall>t. trim ascii_strings (toLowerCase ascii_strings t)
            = toLowerCase ascii_strings (trim ascii_strings t))
   \<and> (\<forall>t. (toLowerCase ascii_strings t = []) = (t = []))
   \<and> (\<forall>x. toLowerCase ascii_strings (numberText ascii_strings x) = numberText ascii_strings x)
   \<and> trim ascii_strings ''  Soil '' = ''Soil''
   \<and> fst (searchAnalyses ascii_strings new_SoilStorage (storage_of (JArr soil_notes)) ''  Soil '')
       = Inr (JArr [sandy_note])"
proof -
  have ty: "\<forall>a\<in>set soil_notes. typed_record a"
    by (simp add: soil_notes_def sandy_note_def clay_note_def)
  have tr: "trim ascii_strings ''  Soil '' = ''Soil''"
    by (simp add: ascii_strings_def ascii_trim_def ascii_space_def)
  show ?thesis
    using search_matches_trimmed_query[OF notes_stored ty ascii_strings_commute
            ascii_strings_empty ascii_strings_numbers, of "''  Soil ''"]
      notes_stored notes_typed ascii_strings_commute ascii_strings_empty ascii_strings_numbers
      tr notes_matching_soil
    by simp
qed

text \<open>
  C8 as stated fails for a query with white space around it: \<^verbatim>\<open>clay\<close> followed by a
  space is not blank and occurs in no field of the record, which is returned all the
  same. The texts are ASCII, where the runtime of the examples does what the
  functions of \<^verbatim>\<open>String.prototype\<close> do.
\<close>

theorem search_raw_query_counterexample:
  "''clay '' \<noteq> [] \<and> trim ascii_strings ''clay '' \<noteq> []
   \<and> fst (searchAnalyses ascii_strings new_SoilStorage (storage_of (JArr soil_notes)) ''clay '')
       = Inr (JArr [clay_note])
   \<and> \<not> spec_search_match ascii_strings ''clay '' clay_note"
proof -
  have tr: "trim ascii_strings ''clay '' = ''clay''"
    by (simp add: ascii_strings_def ascii_trim_def ascii_space_def)
  have lo: "toLowerCase ascii_strings ''clay '' = ''clay ''"
    by (simp add: ascii_strings_def ascii_toLowerCase_def ascii_lower_char_def)
  have m0: "search_match ascii_strings ''clay'' sandy_note = Inr False"
    by (simp add: sandy_note_def search_match_def location_includes_def
          ascii_strings_def ascii_toLowerCase_def ascii_lower_char_def)
  have m1: "search_match ascii_strings ''clay'' clay_note = Inr True"
    by (simp add: clay_note_def search_match_def ascii_strings_def ascii_toLowerCase_def
          ascii_lower_char_def)
  have f: "filter_js (search_match ascii_strings ''clay'') soil_notes = Inr [clay_note]"
    by (simp add: soil_notes_def m0 m1)
  have s: "fst (searchAnalyses ascii_strings new_SoilStorage (storage_of (JArr soil_notes)) ''clay '')
       = Inr (JArr [clay_note])"
    using notes_stored
    by (cases "getAnalyses new_SoilStorage (storage_of (JArr soil_notes))")
       (simp add: searchAnalyses_def Let_def tr lo f)
  have n: "\<not> spec_search_match ascii_strings ''clay '' clay_note"
    by (simp add: clay_note_def spec_search_match_def ci_substring_def includes_js_sublist[symmetric]
          ascii_strings_def ascii_toLowerCase_def ascii_lower_char_def sample_number_text_def)
  show ?thesis using tr s n by simp
qed

section \<open>Demo analysis\<close>

lemma half_floor:
  fixes y :: real
  assumes "of_int a \<le> y" and "y \<le> of_int b"
  shows "a \<le> \<lfloor>y + 1 / 2\<rfloor> \<and> \<lfloor>y + 1 / 2\<rfloor> \<le> b"
proof -
  have "of_int a \<le> y + 1 / 2" using assms(1) by simp
  then have l: "a \<le> \<lfloor>y + 1 / 2\<rfloor>" by (simp add: le_floor_iff)
  have "y + 1 / 2 < of_int (b + 1)" using assms(2) by simp
  then have "\<lfloor>y + 1 / 2\<rfloor> < b + 1" by (simp only: floor_less_iff)
  with l show ?thesis by simp
qed

lemma drawn_value_range:
  fixes r lo hi :: real
  assumes "0 \<le> r" and "r < 1" and "lo \<le> hi"
  shows "lo \<le> r * (hi - lo) + lo \<and> r * (hi - lo) + lo \<le> hi"
proof -
  have "0 \<le> r * (hi - lo)" using assms by simp
  moreover have "r * (hi - lo) \<le> 1 * (hi - lo)"
    using assms by (intro mult_right_mono) simp_all
  ultimately show ?thesis by simp
qed

lemma getRandomValue_whole:
  assumes "0 \<le> r" and "r < 1" and "a \<le> b"
  shows "of_int a \<le> getRandomValue r (of_int a) (of_int b) 0
       \<and> getRandomValue r (of_int a) (of_int b) 0 \<le> of_int b"
proof -
  let ?v = "r * (of_int b - of_int a) + of_int a"
  have "(of_int a :: real) \<le> of_int b" using assms(3) by simp
  from drawn_value_range[OF assms(1,2) this] half_floor[of a ?v b]
  have "a \<le> \<lfloor>?v + 1 / 2\<rfloor> \<and> \<lfloor>?v + 1 / 2\<rfloor> \<le> b" by simp
  then show ?thesis
    by (simp add: getRandomValue_def round_js_def Let_def)
qed

lemma getRandomValue_tenths:
  assumes "0 \<le> r" and "r < 1" and "0 \<le> a" and "a \<le> b"
  shows "of_int a / 10 \<le> getRandomValue r (of_int a / 10) (of_int b / 10) 1
       \<and> getRandomValue r (of_int a / 10) (of_int b / 10) 1 \<le> of_int b / 10"
proof -
  let ?lo = "of_int a / 10 :: real" and ?hi = "of_int b / 10 :: real"
  let ?v = "r * (?hi - ?lo) + ?lo"
  have le: "?lo \<le> ?hi" using assms(4) by simp
  from drawn_value_range[OF assms(1,2) le] have v: "?lo \<le> ?v" "?v \<le> ?hi" by simp_all
  have nn: "\<not> ?v < 0" using v(1) assms(3) by (simp add: not_less order_trans[of 0 ?lo ?v])
  have "of_int a \<le> ?v * 10" "?v * 10 \<le> of_int b" using v by simp_all
  from half_floor[OF this] have f: "a \<le> \<lfloor>?v * 10 + 1 / 2\<rfloor>" "\<lfloor>?v * 10 + 1 / 2\<rfloor> \<le> b" by simp_all
  have "getRandomValue r ?lo ?hi 1 = of_int \<lfloor>?v * 10 + 1 / 2\<rfloor> / 10"
    using nn by (simp add: getRandomValue_def toFixed_value_def Let_def)
  moreover have "?lo \<le> of_int \<lfloor>?v * 10 + 1 / 2\<rfloor> / 10" using f(1) by simp
  moreover have "of_int \<lfloor>?v * 10 + 1 / 2\<rfloor> / 10 \<le> ?hi" using f(2) by simp
  ultimately show ?thesis by simp
qed

text \<open>
  C4. Whenever the health check resolves to false, \<^verbatim>\<open>analyzeSoil\<close> resolves, for every
  file and every optional location, with a successful result whose data is flagged
  \<^verbatim>\<open>isDemo\<close> and carries the five metrics within their ranges: pH from 5.5 to 8.0,
  organic matter from 1.0 to 5.0, phosphorus from 10 to 50, electrical conductivity
  from 0.5 to 2.5, moisture from 15 to 35. The weather is present exactly when a
  location was given. Each \<^verbatim>\<open>Math.random()\<close> is at least 0 and below 1.
\<close>

theorem demo_analysis_in_range:
  assumes "checkHealth self net = Some False"
    and "\<forall>k. 0 \<le> random rt k \<and> random rt k < 1"
  shows "\<exists>d. analyzeSoil self net rt imageFile loc =
               Some \<lparr>success = True, payload = Some (DemoAnalysis d),
                     error_message = None, result_status = None\<rparr>
           \<and> isDemo d
           \<and> 55 / 10 \<le> pH (analysis d) \<and> pH (analysis d) \<le> 8
           \<and> 1 \<le> OM (analysis d) \<and> OM (analysis d) \<le> 5
           \<and> 10 \<le> P' (analysis d) \<and> P' (analysis d) \<le> 50
           \<and> 5 / 10 \<le> EC (analysis d) \<and> EC (analysis d) \<le> 25 / 10
           \<and> 15 \<le> moisture (analysis d) \<and> moisture (analysis d) \<le> 35
           \<and> (weather d \<noteq> None \<longleftrightarrow> loc \<noteq> None)"
proof -
  have r: "0 \<le> random rt k" "random rt k < 1" for k using assms(2) by simp_all
  have ph: "55 / 10 \<le> getRandomValue (random rt 0) (55 / 10) 8 1
          \<and> getRandomValue (random rt 0) (55 / 10) 8 1 \<le> 8"
    using getRandomValue_tenths[OF r(1)[of 0] r(2)[of 0], of 55 80] by simp
  have om: "1 \<le> getRandomValue (random rt 1) 1 5 1 \<and> getRandomValue (random rt 1) 1 5 1 \<le> 5"
    using getRandomValue_tenths[OF r(1)[of 1] r(2)[of 1], of 10 50] by simp
  have p: "10 \<le> getRandomValue (random rt 2) 10 50 0 \<and> getRandomValue (random rt 2) 10 50 0 \<le> 50"
    using getRandomValue_whole[OF r(1)[of 2] r(2)[of 2], of 10 50] by simp
  have ec: "5 / 10 \<le> getRandomValue (random rt 3) (5 / 10) (25 / 10) 1
          \<and> getRandomValue (random rt 3) (5 / 10) (25 / 10) 1 \<le> 25 / 10"
    using getRandomValue_tenths[OF r(1)[of 3] r(2)[of 3], of 5 25] by simp
  have mo: "15 \<le> getRandomValue (random rt 4) 15 35 0 \<and> getRandomValue (random rt 4) 15 35 0 \<le> 35"
    using getRandomValue_whole[OF r(1)[of 4] r(2)[of 4], of 15 35] by simp
  have w: "(case loc of None \<Rightarrow> None | Some l \<Rightarrow> Some (f l)) \<noteq> None \<longleftrightarrow> loc \<noteq> None" for f :: "location \<Rightarrow> weather_data"
    by (cases loc) simp_all
  show ?thesis
    using ph om p ec mo w
    by (simp add: analyzeSoil_def assms(1) getDemoAnalysis_def Let_def)
qed

lemma offline_health: "checkHealth (new_SoilAPI ''http://localhost:5000'') offline_network = Some False"
  by (simp add: checkHealth_def fetch_def offline_network_def)

lemma even_draws_unit: "\<forall>k. 0 \<le> random even_draws k \<and> random even_draws k < 1"
  by (simp add: even_draws_def)

theorem demo_analysis_in_range_witness:
  "checkHealth (new_SoilAPI ''http://localhost:5000'') offline_network = Some False
   \<and> (\<forall>k. 0 \<le> random even_draws k \<and> random even_draws k < 1)
   \<and> (\<exists>d. analyzeSoil (new_SoilAPI ''http://localhost:5000'') offline_network even_draws
              ''soil.jpg'' (Some \<lparr>lat = 12, lon = 77\<rparr>) =
               Some \<lparr>success = True, payload = Some (DemoAnalysis d),
                     error_message = None, result_status = None\<rparr>
           \<and> isDemo d
           \<and> 55 / 10 \<le> pH (analysis d) \<and> pH (analysis d) \<le> 8
           \<and> 1 \<le> OM (analysis d) \<and> OM (analysis d) \<le> 5
           \<and> 10 \<le> P' (analysis d) \<and> P' (analysis d) \<le> 50
           \<and> 5 / 10 \<le> EC (analysis d) \<and> EC (analysis d) \<le> 25 / 10
           \<and> 15 \<le> moisture (analysis d) \<and> moisture (analysis d) \<le> 35
           \<and> weather d \<noteq> None)"
  using demo_analysis_in_range[OF offline_health even_draws_unit, of "''soil.jpg''"
          "Some \<lparr>lat = 12, lon = 77\<rparr>"]
    offline_health even_draws_unit
  by simp

lemma even_draws_metrics:
  "getRandomValue (1 / 2) (55 / 10) 8 1 = 68 / 10
   \<and> getRandomValue (1 / 2) 1 5 1 = 3
   \<and> getRandomValue (1 / 2) 10 50 0 = 30
   \<and> getRandomValue (1 / 2) (5 / 10) (25 / 10) 1 = 15 / 10
   \<and> getRandomValue (1 / 2) 15 35 0 = 25"
  by (simp add: getRandomValue_def toFixed_value_def round_js_def Let_def)

section \<open>Requests and time\<close>

text \<open>
  C7 fails on the code: no request of the health check or of the upload carries a time
  limit. Against a server that never answers, the health check never settles, whether
  or not the runtime would honour a \<^verbatim>\<open>timeout\<close> member in the options, and with it
  \<^verbatim>\<open>analyzeSoil\<close>, \<^verbatim>\<open>generateVideo\<close> and \<^verbatim>\<open>getHistory\<close> never settle; when only the
  upload gets no answer, \<^verbatim>\<open>analyzeSoil\<close> never settles and never falls back. The
  constructor does set \<^verbatim>\<open>timeout\<close> to 30000.
\<close>

theorem requests_without_time_limit:
  "timeout (new_SoilAPI ''http://localhost:5000'') = 30000
   \<and> checkHealth (new_SoilAPI ''http://localhost:5000'') (silent_network True) = None
   \<and> checkHealth (new_SoilAPI ''http://localhost:5000'') (silent_network False) = None
   \<and> analyzeSoil (new_SoilAPI ''http://localhost:5000'') (silent_network True) even_draws
         ''soil.jpg'' None = None
   \<and> generateVideo (new_SoilAPI ''http://localhost:5000'') (silent_network True) = None
   \<and> getHistory (new_SoilAPI ''http://localhost:5000'') (silent_network True) = None
   \<and> checkHealth (new_SoilAPI ''http://localhost:5000'') (stalled_upload True) = Some True
   \<and> analyzeSoil (new_SoilAPI ''http://localhost:5000'') (stalled_upload True) even_draws
         ''soil.jpg'' None = None"
  by (simp add: new_SoilAPI_def checkHealth_def analyzeSoil_def generateVideo_def getHistory_def
        fetch_def silent_network_def stalled_upload_def)

end
